theory Spec2Isabelle
  imports Complex_Main
begin

section \<open>Values and records\<close>

text \<open>
  The worker is TypeScript. A property that can be \<^verbatim>\<open>undefined\<close> (or \<^verbatim>\<open>null\<close>) at run time
  is an option, \<open>None\<close> standing for the missing value. Strings are \<open>string\<close>. A
  \<^verbatim>\<open>number\<close> is a finite value, one of the two infinities or \<^verbatim>\<open>NaN\<close>; a finite value is an
  exact rational, so the rounding of doubles is not modelled and negative zero is zero.
  Values of a type other than the declared one are outside this development.
\<close>

datatype number = Finite rat | PosInfinity | NegInfinity | NaN

text \<open>\<^verbatim>\<open>a + b\<close>, \<^verbatim>\<open>a * b\<close>, \<^verbatim>\<open>-a\<close>, \<^verbatim>\<open>a < b\<close> and \<^verbatim>\<open>Math.min(a, b)\<close> on numbers.\<close>

fun number_add :: "number \<Rightarrow> number \<Rightarrow> number" where
  "number_add NaN b = NaN"
| "number_add a NaN = NaN"
| "number_add (Finite x) (Finite y) = Finite (x + y)"
| "number_add PosInfinity NegInfinity = NaN"
| "number_add NegInfinity PosInfinity = NaN"
| "number_add PosInfinity b = PosInfinity"
| "number_add NegInfinity b = NegInfinity"
| "number_add (Finite x) b = b"

fun number_negate :: "number \<Rightarrow> number" where
  "number_negate (Finite x) = Finite (- x)"
| "number_negate PosInfinity = NegInfinity"
| "number_negate NegInfinity = PosInfinity"
| "number_negate NaN = NaN"

text \<open>The sign of a number other than \<^verbatim>\<open>NaN\<close>: -1, 0 or 1.\<close>

fun number_sign :: "number \<Rightarrow> int" where
  "number_sign (Finite x) = (if x < 0 then - 1 else if x = 0 then 0 else 1)"
| "number_sign PosInfinity = 1"
| "number_sign NegInfinity = - 1"
| "number_sign NaN = 0"

fun number_times :: "number \<Rightarrow> number \<Rightarrow> number" where
  "number_times NaN b = NaN"
| "number_times a NaN = NaN"
| "number_times (Finite x) (Finite y) = Finite (x * y)"
| "number_times a b =
     (if number_sign a * number_sign b = 0 then NaN
      else if number_sign a * number_sign b > 0 then PosInfinity
      else NegInfinity)"

fun number_less :: "number \<Rightarrow> number \<Rightarrow> bool" where
  "number_less NaN b = False"
| "number_less a NaN = False"
| "number_less (Finite x) (Finite y) = (x < y)"
| "number_less a PosInfinity = (a \<noteq> PosInfinity)"
| "number_less NegInfinity b = (b \<noteq> NegInfinity)"
| "number_less a b = False"

definition number_min :: "number \<Rightarrow> number \<Rightarrow> number" where
  "number_min a b =
     (if a = NaN \<or> b = NaN then NaN else if number_less b a then b else a)"

text \<open>\<^verbatim>\<open>a <= b\<close>: false when either side is \<^verbatim>\<open>NaN\<close>.\<close>

definition number_le :: "number \<Rightarrow> number \<Rightarrow> bool" where
  "number_le a b = (a \<noteq> NaN \<and> b \<noteq> NaN \<and> \<not> number_less b a)"

text \<open>An integer, such as a clock reading or a count of seconds, as a number.\<close>

definition of_integer :: "int \<Rightarrow> number" where
  "of_integer n = Finite (of_int n)"

record Tokens =
  access_token :: "string option"
  refresh_token :: "string option"
  expires_at :: "number option"

text \<open>The body of a token endpoint answer, as read by \<^verbatim>\<open>response.json()\<close>.\<close>

record TokenData =
  data_access_token :: "string option"
  data_refresh_token :: "string option"
  data_expires_in :: "number option"

text \<open>
  A \<^verbatim>\<open>Response\<close>: \<open>headers\<close> lists the header lines as received, \<open>json\<close> is \<open>None\<close>
  when the body is not JSON, so that \<^verbatim>\<open>response.json()\<close> rejects.
\<close>

record Response =
  status :: nat
  headers :: "(string \<times> string) list"
  json :: "TokenData option"

record RequestInit =
  request_method :: string
  init_headers :: "(string \<times> string) list"
  init_body :: "string option"

datatype error =
    CredentialsNotConfigured
  | TokenExchangeFailed nat
  | TokenRefreshFailed nat
  | InvalidTokenStructure
  | FailedToSaveTokens
  | NoAccessTokenAvailable
  | NetworkError
  | BodyNotJson
  | KvError
  | SyntaxError
  | TypeError

text \<open>The form posted to the token endpoint.\<close>

datatype grant =
    Authorization_code string string
  | Refresh_token "string option"

text \<open>
  \<^verbatim>\<open>JSON.parse\<close> and \<^verbatim>\<open>JSON.stringify\<close> belong to the runtime. A text is represented by
  what \<^verbatim>\<open>JSON.parse\<close> makes of it: the empty string, a text that is not JSON, or the
  text of a JSON value. Of a JSON value only its reading as \<^verbatim>\<open>Tokens\<close> matters: \<open>JNull\<close>,
  on which a property read throws, a value without properties (number, string, boolean,
  array), or an object, given by the three properties the code reads. A property that
  is \<^verbatim>\<open>null\<close> or missing is \<open>None\<close>; a JSON text can denote an infinite number (as
  \<^verbatim>\<open>1e999\<close>) but not \<^verbatim>\<open>NaN\<close>.
\<close>

datatype json_value = JNull | JScalar | JObject Tokens

datatype kv_text = Text_empty | Text_malformed | Text_json json_value

definition JSON_parse :: "kv_text \<Rightarrow> error + json_value" where
  "JSON_parse data =
     (case data of
        Text_empty \<Rightarrow> Inl SyntaxError
      | Text_malformed \<Rightarrow> Inl SyntaxError
      | Text_json v \<Rightarrow> Inr v)"

text \<open>
  \<^verbatim>\<open>JSON.stringify\<close> leaves out a property that is \<^verbatim>\<open>undefined\<close> and writes a number
  that is not finite as \<^verbatim>\<open>null\<close>; strings and finite numbers are written so that
  \<^verbatim>\<open>JSON.parse\<close> reads them back.
\<close>

definition JSON_stringify :: "Tokens \<Rightarrow> kv_text" where
  "JSON_stringify tokens =
     Text_json (JObject
       (tokens\<lparr>expires_at :=
          (case expires_at tokens of
             Some (Finite x) \<Rightarrow> Some (Finite x)
           | _ \<Rightarrow> None)\<rparr>))"

text \<open>\<^verbatim>\<open>JSON.parse(data) as Tokens\<close> followed by the first property read.\<close>

definition as_Tokens :: "json_value \<Rightarrow> error + Tokens" where
  "as_Tokens v =
     (case v of
        JNull \<Rightarrow> Inl TypeError
      | JScalar \<Rightarrow> Inr \<lparr>access_token = None, refresh_token = None, expires_at = None\<rparr>
      | JObject tokens \<Rightarrow> Inr tokens)"

text \<open>
  Truthiness: \<^verbatim>\<open>!x\<close> holds of undefined, of the empty string, of 0 and of \<^verbatim>\<open>NaN\<close>.
\<close>

definition truthy_string :: "string option \<Rightarrow> bool" where
  "truthy_string v = (case v of None \<Rightarrow> False | Some s \<Rightarrow> s \<noteq> [])"

definition truthy_number :: "number option \<Rightarrow> bool" where
  "truthy_number v =
     (case v of None \<Rightarrow> False | Some n \<Rightarrow> n \<noteq> Finite 0 \<and> n \<noteq> NaN)"

text \<open>\<^verbatim>\<open>a || b\<close> on strings and on numbers.\<close>

definition string_or :: "string option \<Rightarrow> string option \<Rightarrow> string option" where
  "string_or a b = (if truthy_string a then a else b)"

definition number_or :: "number option \<Rightarrow> number \<Rightarrow> number" where
  "number_or a b = (case a of None \<Rightarrow> b | Some n \<Rightarrow> if truthy_number (Some n) then n else b)"

text \<open>\<^verbatim>\<open>a > b\<close> with a possibly undefined left side (undefined compares false).\<close>

definition number_gt :: "number option \<Rightarrow> number \<Rightarrow> bool" where
  "number_gt a b = (case a of None \<Rightarrow> False | Some n \<Rightarrow> number_less b n)"

section \<open>The environment\<close>

text \<open>
  \<^verbatim>\<open>Env\<close> of storage.ts together with everything outside the worker that the code
  talks to. The key-value namespace holds one text under \<^verbatim>\<open>TOKENS_KEY\<close>, which only
  \<^verbatim>\<open>writeTokens\<close> changes; each of its operations can fail: \<open>kv_unavailable env k\<close> tells
  whether the \<open>k\<close>-th \<^verbatim>\<open>get\<close> or \<^verbatim>\<open>put\<close> throws. The clock, the token endpoint and the
  resource API are given by their successive answers: \<open>clock env k\<close> is what the \<open>k\<close>-th
  call of \<^verbatim>\<open>Date.now()\<close> returns, and likewise for the two servers. \<open>Date_parse\<close> is the
  runtime's \<^verbatim>\<open>Date.parse\<close>, whose reading of a text is left to the implementation
  (\<open>None\<close> is \<^verbatim>\<open>NaN\<close>). The remaining fields record effects: how often
  \<^verbatim>\<open>refreshAccessToken\<close> was entered, the delays passed to \<^verbatim>\<open>sleep\<close>, and how often a
  scripted request was made.
\<close>

record world =
  TOKENS_KV :: "kv_text option"
  kv_unavailable :: "nat \<Rightarrow> bool"
  kv_ops :: nat
  SPOTIFY_CLIENT_ID :: "string option"
  SPOTIFY_CLIENT_SECRET :: "string option"
  clock :: "nat \<Rightarrow> int"
  clock_reads :: nat
  token_endpoint :: "nat \<Rightarrow> grant \<Rightarrow> error + Response"
  token_posts :: nat
  resource_api :: "nat \<Rightarrow> string \<Rightarrow> RequestInit \<Rightarrow> string option \<Rightarrow> error + Response"
  api_requests :: nat
  Date_parse :: "string \<Rightarrow> int option"
  refresh_calls :: nat
  slept :: "number list"
  script :: "nat \<Rightarrow> error + Response"
  script_calls :: nat

definition KV_get :: "world \<Rightarrow> (error + kv_text option) \<times> world" where
  "KV_get env =
     (if kv_unavailable env (kv_ops env) then Inl KvError else Inr (TOKENS_KV env),
      env\<lparr>kv_ops := Suc (kv_ops env)\<rparr>)"

definition KV_put :: "kv_text \<Rightarrow> world \<Rightarrow> (error + unit) \<times> world" where
  "KV_put data env =
     (if kv_unavailable env (kv_ops env) then (Inl KvError, env\<lparr>kv_ops := Suc (kv_ops env)\<rparr>)
      else (Inr (), env\<lparr>TOKENS_KV := Some data, kv_ops := Suc (kv_ops env)\<rparr>))"

definition Date_now :: "world \<Rightarrow> int \<times> world" where
  "Date_now env = (clock env (clock_reads env), env\<lparr>clock_reads := Suc (clock_reads env)\<rparr>)"

definition ok :: "Response \<Rightarrow> bool" where
  "ok response = (200 \<le> status response \<and> status response \<le> 299)"

section \<open>storage.ts\<close>

definition readTokens :: "world \<Rightarrow> Tokens option \<times> world" where
  "readTokens env =
     (case KV_get env of
        (Inl e, env1) \<Rightarrow> (None, env1)
      | (Inr None, env1) \<Rightarrow> (None, env1)
      | (Inr (Some data), env1) \<Rightarrow>
          if data = Text_empty then (None, env1)
          else
            (case JSON_parse data of
               Inl e \<Rightarrow> (None, env1)
             | Inr parsed \<Rightarrow>
                 (case as_Tokens parsed of
                    Inl e \<Rightarrow> (None, env1)
                  | Inr tokens \<Rightarrow>
                      if \<not> truthy_string (access_token tokens)
                         \<or> \<not> truthy_string (refresh_token tokens)
                         \<or> \<not> truthy_number (expires_at tokens)
                      then (None, env1)
                      else (Some tokens, env1))))"

text \<open>
  The body of the \<^verbatim>\<open>try\<close> either throws \<^verbatim>\<open>'Invalid token structure'\<close>, or throws what
  \<^verbatim>\<open>put\<close> throws, or completes; the \<^verbatim>\<open>catch\<close> turns either error into
  \<^verbatim>\<open>'Failed to save tokens'\<close>.
\<close>

definition writeTokens :: "Tokens \<Rightarrow> world \<Rightarrow> (error + unit) \<times> world" where
  "writeTokens tokens env =
     (case
        (if \<not> truthy_string (access_token tokens)
            \<or> \<not> truthy_string (refresh_token tokens)
            \<or> \<not> truthy_number (expires_at tokens)
         then (Inl InvalidTokenStructure, env)
         else KV_put (JSON_stringify tokens) env)
      of
        (Inl e, env1) \<Rightarrow> (Inl FailedToSaveTokens, env1)
      | (Inr u, env1) \<Rightarrow> (Inr (), env1))"

section \<open>spotify.ts\<close>

definition SPOTIFY_API_BASE :: string where
  "SPOTIFY_API_BASE = ''https://api.spotify.com/v1''"

text \<open>
  \<^verbatim>\<open>fetch(SPOTIFY_TOKEN_URL, ...)\<close> and \<^verbatim>\<open>fetch(url, ...)\<close>: the next answer of the server
  (\<open>Inl\<close> when the promise rejects). The resource API sees the URL, the caller's options
  and the bearer token put into the \<^verbatim>\<open>Authorization\<close> header.
\<close>

definition fetch_token :: "grant \<Rightarrow> world \<Rightarrow> (error + Response) \<times> world" where
  "fetch_token g env =
     (token_endpoint env (token_posts env) g, env\<lparr>token_posts := Suc (token_posts env)\<rparr>)"

definition fetch_api ::
  "string \<Rightarrow> RequestInit \<Rightarrow> string option \<Rightarrow> world \<Rightarrow> (error + Response) \<times> world" where
  "fetch_api url options bearer env =
     (resource_api env (api_requests env) url options bearer,
      env\<lparr>api_requests := Suc (api_requests env)\<rparr>)"

definition exchangeCodeForTokens ::
  "string \<Rightarrow> string \<Rightarrow> world \<Rightarrow> (error + Tokens) \<times> world" where
  "exchangeCodeForTokens code redirectUri env =
     (if \<not> truthy_string (SPOTIFY_CLIENT_ID env) \<or> \<not> truthy_string (SPOTIFY_CLIENT_SECRET env)
      then (Inl CredentialsNotConfigured, env)
      else
        (case fetch_token (Authorization_code code redirectUri) env of
           (Inl e, env1) \<Rightarrow> (Inl e, env1)
         | (Inr response, env1) \<Rightarrow>
             if \<not> ok response then (Inl (TokenExchangeFailed (status response)), env1)
             else
               (case json response of
                  None \<Rightarrow> (Inl BodyNotJson, env1)
                | Some data \<Rightarrow>
                    (case Date_now env1 of
                       (t, env2) \<Rightarrow>
                         (Inr \<lparr>access_token = data_access_token data,
                               refresh_token = data_refresh_token data,
                               expires_at =
                                 Some (number_add (of_integer (t div 1000))
                                         (number_or (data_expires_in data) (Finite 3600)))\<rparr>,
                          env2)))))"

text \<open>
  \<open>refresh_calls\<close> counts the entries into \<^verbatim>\<open>refreshAccessToken\<close>; nothing in the code
  reads it.
\<close>

definition refreshAccessToken :: "string option \<Rightarrow> world \<Rightarrow> (error + Tokens) \<times> world" where
  "refreshAccessToken refreshToken env =
     (let env0 = env\<lparr>refresh_calls := Suc (refresh_calls env)\<rparr> in
      if \<not> truthy_string (SPOTIFY_CLIENT_ID env0) \<or> \<not> truthy_string (SPOTIFY_CLIENT_SECRET env0)
      then (Inl CredentialsNotConfigured, env0)
      else
        (case fetch_token (Refresh_token refreshToken) env0 of
           (Inl e, env1) \<Rightarrow> (Inl e, env1)
         | (Inr response, env1) \<Rightarrow>
             if \<not> ok response then (Inl (TokenRefreshFailed (status response)), env1)
             else
               (case json response of
                  None \<Rightarrow> (Inl BodyNotJson, env1)
                | Some data \<Rightarrow>
                    (case readTokens env1 of
                       (currentTokens, env2) \<Rightarrow>
                         (case Date_now env2 of
                            (t, env3) \<Rightarrow>
                              (Inr \<lparr>access_token = data_access_token data,
                                    refresh_token =
                                      string_or (data_refresh_token data)
                                        (string_or
                                           (case currentTokens of
                                              None \<Rightarrow> None
                                            | Some current \<Rightarrow> refresh_token current)
                                           refreshToken),
                                    expires_at =
                                 Some (number_add (of_integer (t div 1000))
                                         (number_or (data_expires_in data) (Finite 3600)))\<rparr>,
                               env3))))))"

text \<open>
  Everything that can throw is inside the \<^verbatim>\<open>try\<close>, whose \<^verbatim>\<open>catch\<close> returns \<^verbatim>\<open>null\<close>: the
  function has no error result.
\<close>

definition getAccessToken :: "world \<Rightarrow> string option \<times> world" where
  "getAccessToken env =
     (case readTokens env of
        (None, env0) \<Rightarrow> (None, env0)
      | (Some tokens, env0) \<Rightarrow>
          (case Date_now env0 of
             (t, env1) \<Rightarrow>
               (let now = t div 1000 in
                if number_gt (expires_at tokens) (of_integer (now + 60))
                then (access_token tokens, env1)
                else
                  (case refreshAccessToken (refresh_token tokens) env1 of
                     (Inl e, env2) \<Rightarrow> (None, env2)
                   | (Inr newTokens, env2) \<Rightarrow>
                       (case writeTokens newTokens env2 of
                          (Inl e, env3) \<Rightarrow> (None, env3)
                        | (Inr u, env3) \<Rightarrow> (access_token newTokens, env3))))))"

text \<open>The state in which \<^verbatim>\<open>getAccessToken\<close> calls the refresh operation.\<close>

abbreviation (input) before_refresh :: "world \<Rightarrow> world" where
  "before_refresh env \<equiv> snd (Date_now (snd (readTokens env)))"

text \<open>
  The retry is \<^verbatim>\<open>return fetch(...)\<close> without \<^verbatim>\<open>await\<close>: a rejection of the second request
  is not caught and reaches the caller.
\<close>

definition spotifyFetch ::
  "string \<Rightarrow> RequestInit \<Rightarrow> world \<Rightarrow> (error + Response) \<times> world" where
  "spotifyFetch path options env =
     (case getAccessToken env of
        (accessToken, env1) \<Rightarrow>
          if \<not> truthy_string accessToken then (Inl NoAccessTokenAvailable, env1)
          else
            (let url = (if take 4 path = ''http'' then path else SPOTIFY_API_BASE @ path) in
             case fetch_api url options accessToken env1 of
               (Inl e, env2) \<Rightarrow> (Inl e, env2)
             | (Inr response, env2) \<Rightarrow>
                 if status response = 401 then
                   (case readTokens env2 of
                      (None, env3) \<Rightarrow> (Inr response, env3)
                    | (Some tokens, env3) \<Rightarrow>
                        (case refreshAccessToken (refresh_token tokens) env3 of
                           (Inl e, env4) \<Rightarrow> (Inr response, env4)
                         | (Inr newTokens, env4) \<Rightarrow>
                             (case writeTokens newTokens env4 of
                                (Inl e, env5) \<Rightarrow> (Inr response, env5)
                              | (Inr u, env5) \<Rightarrow>
                                  fetch_api url options (access_token newTokens) env5)))
                 else (Inr response, env2)))"

section \<open>The runtime's \<^verbatim>\<open>Number\<close> and \<^verbatim>\<open>Headers\<close>\<close>

text \<open>
  \<^verbatim>\<open>Number(text)\<close> reads a text by the grammar of numeric string literals: white space
  around it is dropped; the empty text is 0; a text starting with \<^verbatim>\<open>0x\<close>, \<^verbatim>\<open>0o\<close> or \<^verbatim>\<open>0b\<close>
  (in either case) is an unsigned integer in base 16, 8 or 2; otherwise an optional sign
  is followed by \<^verbatim>\<open>Infinity\<close> or by decimal digits with an optional fraction and an
  optional exponent. Anything else is \<^verbatim>\<open>NaN\<close>. A value too large for a double is an
  infinity. The characters are bytes, as in a header value.
\<close>

definition is_white_space :: "char \<Rightarrow> bool" where
  "is_white_space c = ((of_char c :: nat) \<in> {9, 10, 11, 12, 13, 32, 160})"

definition digit_value :: "char \<Rightarrow> nat option" where
  "digit_value c =
     (let code = (of_char c :: nat) in
      if 48 \<le> code \<and> code \<le> 57 then Some (code - 48)
      else if 97 \<le> code \<and> code \<le> 102 then Some (code - 87)
      else if 65 \<le> code \<and> code \<le> 70 then Some (code - 55)
      else None)"

definition is_digit :: "nat \<Rightarrow> char \<Rightarrow> bool" where
  "is_digit base c = (case digit_value c of None \<Rightarrow> False | Some d \<Rightarrow> d < base)"

definition digits_value :: "nat \<Rightarrow> string \<Rightarrow> nat" where
  "digits_value base cs =
     foldl (\<lambda>acc c. base * acc + (case digit_value c of None \<Rightarrow> 0 | Some d \<Rightarrow> d)) 0 cs"

definition trim :: "string \<Rightarrow> string" where
  "trim s = rev (dropWhile is_white_space (rev (dropWhile is_white_space s)))"

text \<open>The largest magnitude that still rounds to a finite double is below this bound.\<close>

definition of_magnitude :: "rat \<Rightarrow> number" where
  "of_magnitude x = (if x \<ge> 2 ^ 1024 - 2 ^ 970 then PosInfinity else Finite x)"

definition non_decimal :: "nat \<Rightarrow> string \<Rightarrow> number" where
  "non_decimal base cs =
     (if cs \<noteq> [] \<and> list_all (is_digit base) cs then of_magnitude (of_nat (digits_value base cs))
      else NaN)"

text \<open>The exponent part: nothing, or \<^verbatim>\<open>e\<close> or \<^verbatim>\<open>E\<close>, an optional sign and digits.\<close>

definition exponent_part :: "string \<Rightarrow> int option" where
  "exponent_part s =
     (case s of
        [] \<Rightarrow> Some 0
      | c # cs \<Rightarrow>
          if c = CHR ''e'' \<or> c = CHR ''E'' then
            (let negative = (take 1 cs = ''-'');
                 ds = (if take 1 cs = ''-'' \<or> take 1 cs = ''+'' then drop 1 cs else cs)
             in if ds \<noteq> [] \<and> list_all (is_digit 10) ds
                then Some ((if negative then - 1 else 1) * int (digits_value 10 ds))
                else None)
          else None)"

definition unsigned_decimal :: "string \<Rightarrow> number" where
  "unsigned_decimal s =
     (if s = ''Infinity'' then PosInfinity
      else
        (let whole = takeWhile (is_digit 10) s;
             after_whole = dropWhile (is_digit 10) s;
             dot = (take 1 after_whole = ''.'');
             fraction = (if dot then takeWhile (is_digit 10) (drop 1 after_whole) else []);
             after_fraction =
               (if dot then dropWhile (is_digit 10) (drop 1 after_whole) else after_whole)
         in if whole = [] \<and> fraction = [] then NaN
            else
              (case exponent_part after_fraction of
                 None \<Rightarrow> NaN
               | Some e \<Rightarrow>
                   of_magnitude
                     ((of_nat (digits_value 10 whole)
                       + of_nat (digits_value 10 fraction) / 10 ^ length fraction)
                      * power_int 10 e))))"

definition Number :: "string \<Rightarrow> number" where
  "Number text =
     (let s = trim text in
      if s = [] then Finite 0
      else if take 2 s = ''0x'' \<or> take 2 s = ''0X'' then non_decimal 16 (drop 2 s)
      else if take 2 s = ''0o'' \<or> take 2 s = ''0O'' then non_decimal 8 (drop 2 s)
      else if take 2 s = ''0b'' \<or> take 2 s = ''0B'' then non_decimal 2 (drop 2 s)
      else if take 1 s = ''+'' then unsigned_decimal (drop 1 s)
      else if take 1 s = ''-'' then number_negate (unsigned_decimal (drop 1 s))
      else unsigned_decimal s)"

text \<open>
  \<^verbatim>\<open>response.headers.get(name)\<close>: header names are compared without regard to case, the
  values of several lines of the same name are joined by a comma and a space, and the
  result is \<^verbatim>\<open>null\<close> when there is no such line.
\<close>

definition lower_case :: "char \<Rightarrow> char" where
  "lower_case c =
     (case map_of (zip ''ABCDEFGHIJKLMNOPQRSTUVWXYZ'' ''abcdefghijklmnopqrstuvwxyz'') c of
        None \<Rightarrow> c
      | Some l \<Rightarrow> l)"

fun join_values :: "string list \<Rightarrow> string" where
  "join_values [] = []"
| "join_values [v] = v"
| "join_values (v # vs) = v @ '', '' @ join_values vs"

definition headers_get :: "Response \<Rightarrow> string \<Rightarrow> string option" where
  "headers_get response name =
     (case filter (\<lambda>line. map lower_case (fst line) = map lower_case name) (headers response) of
        [] \<Rightarrow> None
      | found \<Rightarrow> Some (join_values (map snd found)))"

section \<open>index.ts: the retry of the transfer\<close>

definition TRANSFER_RETRY_ATTEMPTS :: int where
  "TRANSFER_RETRY_ATTEMPTS = 3"

definition TRANSFER_RETRY_BASE_DELAY_MS :: rat where
  "TRANSFER_RETRY_BASE_DELAY_MS = 350"

definition TRANSFER_RETRY_MAX_DELAY_MS :: number where
  "TRANSFER_RETRY_MAX_DELAY_MS = Finite 2000"

text \<open>The delay is recorded; nothing else happens while the worker sleeps.\<close>

definition sleep :: "number \<Rightarrow> world \<Rightarrow> world" where
  "sleep ms env = env\<lparr>slept := slept env @ [ms]\<rparr>"

definition shouldRetryTransfer :: "Response \<Rightarrow> bool" where
  "shouldRetryTransfer response =
     (if status response = 404 \<or> status response = 429 then True
      else status response \<ge> 500 \<and> status response \<le> 504)"

text \<open>
  \<^verbatim>\<open>350 * Math.pow(2, attempt - 1)\<close>, clamped. \<open>attempt\<close> is a number, so the power is
  \<open>power_int\<close>, defined for every integer exponent.
\<close>

definition exponential_delay :: "int \<Rightarrow> number" where
  "exponential_delay attempt =
     number_min (Finite (TRANSFER_RETRY_BASE_DELAY_MS * power_int 2 (attempt - 1)))
       TRANSFER_RETRY_MAX_DELAY_MS"

definition getRetryDelayMs :: "int \<Rightarrow> Response option \<Rightarrow> world \<Rightarrow> number \<times> world" where
  "getRetryDelayMs attempt response env =
     (case response of
        None \<Rightarrow> (exponential_delay attempt, env)
      | Some r \<Rightarrow>
          if status r = 429 then
            (case headers_get r ''Retry-After'' of
               None \<Rightarrow> (exponential_delay attempt, env)
             | Some retryAfter \<Rightarrow>
                 if retryAfter = [] then (exponential_delay attempt, env)
                 else
                   (let seconds = Number retryAfter in
                    if seconds \<noteq> NaN
                    then (number_min (number_times seconds (Finite 1000))
                            TRANSFER_RETRY_MAX_DELAY_MS, env)
                    else
                      (case Date_parse env retryAfter of
                         None \<Rightarrow> (exponential_delay attempt, env)
                       | Some retryDate \<Rightarrow>
                           (case Date_now env of
                              (t, env1) \<Rightarrow>
                                (let delta = retryDate - t in
                                 if delta > 0
                                 then (number_min (of_integer delta)
                                         TRANSFER_RETRY_MAX_DELAY_MS, env1)
                                 else (exponential_delay attempt, env1))))))
          else (exponential_delay attempt, env))"

text \<open>
  The \<^verbatim>\<open>for\<close> loop of \<^verbatim>\<open>retryTransfer\<close>, from \<open>attempt\<close> on, with the loop's variable
  \<open>lastResponse\<close>. The last line is the \<^verbatim>\<open>return\<close> after the loop.
\<close>

function retryTransfer_loop ::
  "(world \<Rightarrow> (error + Response) \<times> world) \<Rightarrow> int \<Rightarrow> Response option \<Rightarrow> world
     \<Rightarrow> (error + Response) \<times> world" where
  "retryTransfer_loop makeRequest attempt lastResponse env =
     (if attempt \<le> TRANSFER_RETRY_ATTEMPTS then
        (case makeRequest env of
           (Inr response, env1) \<Rightarrow>
             if ok response \<or> \<not> shouldRetryTransfer response \<or> attempt = TRANSFER_RETRY_ATTEMPTS
             then (Inr response, env1)
             else
               (case getRetryDelayMs attempt (Some response) env1 of
                  (delayMs, env2) \<Rightarrow>
                    retryTransfer_loop makeRequest (attempt + 1) (Some response)
                      (sleep delayMs env2))
         | (Inl e, env1) \<Rightarrow>
             if attempt = TRANSFER_RETRY_ATTEMPTS then (Inl e, env1)
             else
               (case getRetryDelayMs attempt None env1 of
                  (delayMs, env2) \<Rightarrow>
                    retryTransfer_loop makeRequest (attempt + 1) lastResponse
                      (sleep delayMs env2)))
      else
        (Inr (case lastResponse of
                Some r \<Rightarrow> r
              | None \<Rightarrow> \<lparr>status = 500, headers = [], json = None\<rparr>),
         env))"
  by pat_completeness auto
termination
  by (relation "measure (\<lambda>(makeRequest, attempt, lastResponse, env). nat (4 - attempt))")
     (auto simp: TRANSFER_RETRY_ATTEMPTS_def)

declare retryTransfer_loop.simps [simp del]

definition retryTransfer ::
  "(world \<Rightarrow> (error + Response) \<times> world) \<Rightarrow> world \<Rightarrow> (error + Response) \<times> world" where
  "retryTransfer makeRequest env = retryTransfer_loop makeRequest 1 None env"

text \<open>
  A \<^verbatim>\<open>makeRequest\<close> that produces a given sequence of outcomes: its \<open>k\<close>-th invocation
  returns \<open>script env k\<close>, and \<open>script_calls\<close> counts the invocations.
\<close>

definition scripted :: "world \<Rightarrow> (error + Response) \<times> world" where
  "scripted env = (script env (script_calls env), env\<lparr>script_calls := Suc (script_calls env)\<rparr>)"

text \<open>An outcome of \<^verbatim>\<open>makeRequest\<close> after which the loop goes on while attempts remain.\<close>

abbreviation goes_on :: "error + Response \<Rightarrow> bool" where
  "goes_on outcome \<equiv>
     (case outcome of Inl e \<Rightarrow> True | Inr r \<Rightarrow> \<not> ok r \<and> shouldRetryTransfer r)"

section \<open>Concrete environments\<close>

text \<open>A \<^verbatim>\<open>Date.parse\<close> that reads one date, one second after the clock of the examples.\<close>

definition one_Date_parse :: "string \<Rightarrow> int option" where
  "one_Date_parse s = (if s = ''Thu, 01 Jan 1970 01:23:21 GMT'' then Some 5001000 else None)"

definition answer :: "nat \<Rightarrow> Response" where
  "answer s = \<lparr>status = s, headers = [], json = None\<rparr>"

definition rate_limited :: "string \<Rightarrow> Response" where
  "rate_limited retryAfter = \<lparr>status = 429, headers = [(''Retry-After'', retryAfter)], json = None\<rparr>"

definition issuer_answer :: "number option \<Rightarrow> Response" where
  "issuer_answer lifetime =
     \<lparr>status = 200, headers = [],
      json = Some \<lparr>data_access_token = Some ''A2'', data_refresh_token = None,
                   data_expires_in = lifetime\<rparr>\<rparr>"

definition outcomes_of :: "(error + Response) list \<Rightarrow> nat \<Rightarrow> error + Response" where
  "outcomes_of xs k = (if k < length xs then xs ! k else Inl NetworkError)"

definition stored_tokens :: "number \<Rightarrow> Tokens" where
  "stored_tokens expiry =
     \<lparr>access_token = Some ''A1'', refresh_token = Some ''R1'', expires_at = Some expiry\<rparr>"

text \<open>
  The store holds the text of \<open>stored_tokens expiry\<close> and answers every operation; the
  clock stands at 5000 seconds; the token endpoint always answers \<open>issuer\<close>; the resource
  API and the scripted request answer \<open>outcomes\<close> in turn.
\<close>

definition example_world ::
  "number \<Rightarrow> error + Response \<Rightarrow> (error + Response) list \<Rightarrow> world" where
  "example_world expiry issuer outcomes =
     \<lparr>TOKENS_KV = Some (Text_json (JObject (stored_tokens expiry))),
      kv_unavailable = (\<lambda>k. False),
      kv_ops = 0,
      SPOTIFY_CLIENT_ID = Some ''client'',
      SPOTIFY_CLIENT_SECRET = Some ''secret'',
      clock = (\<lambda>k. 5000000 + int k),
      clock_reads = 0,
      token_endpoint = (\<lambda>k g. issuer),
      token_posts = 0,
      resource_api = (\<lambda>k url options bearer. outcomes_of outcomes k),
      api_requests = 0,
      Date_parse = one_Date_parse,
      refresh_calls = 0,
      slept = [],
      script = outcomes_of outcomes,
      script_calls = 0\<rparr>"

definition GET :: RequestInit where
  "GET = \<lparr>request_method = ''GET'', init_headers = [], init_body = None\<rparr>"

lemmas number_defs =
  Number_def trim_def is_white_space_def digit_value_def is_digit_def digits_value_def
  of_magnitude_def non_decimal_def exponent_part_def unsigned_decimal_def

lemmas example_defs =
  example_world_def stored_tokens_def issuer_answer_def outcomes_of_def answer_def
  rate_limited_def GET_def one_Date_parse_def

lemmas store_defs =
  readTokens_def writeTokens_def KV_get_def KV_put_def JSON_parse_def JSON_stringify_def
  as_Tokens_def truthy_string_def truthy_number_def

lemmas spotify_defs =
  store_defs string_or_def number_or_def number_gt_def of_integer_def Date_now_def ok_def
  fetch_token_def fetch_api_def refreshAccessToken_def exchangeCodeForTokens_def
  getAccessToken_def spotifyFetch_def SPOTIFY_API_BASE_def

section \<open>The store\<close>

lemma truthy_string_iff: "truthy_string v \<longleftrightarrow> (\<exists>s. v = Some s \<and> s \<noteq> [])"
  by (cases v) (simp_all add: truthy_string_def)

lemma truthy_number_iff:
  "truthy_number v \<longleftrightarrow> (\<exists>n. v = Some n \<and> n \<noteq> Finite 0 \<and> n \<noteq> NaN)"
  by (cases v) (simp_all add: truthy_number_def)

lemma readTokens_state: "snd (readTokens env) = env\<lparr>kv_ops := Suc (kv_ops env)\<rparr>"
  by (simp add: readTokens_def KV_get_def split: option.splits sum.splits)

lemma readTokens_stored:
  "\<not> kv_unavailable env (kv_ops env) \<Longrightarrow> TOKENS_KV env = Some (Text_json (JObject t)) \<Longrightarrow>
   fst (readTokens env) =
     (if truthy_string (access_token t) \<and> truthy_string (refresh_token t)
         \<and> truthy_number (expires_at t)
      then Some t else None)"
  by (simp add: readTokens_def KV_get_def JSON_parse_def as_Tokens_def)

lemma readTokens_Some:
  "fst (readTokens env) = Some t \<Longrightarrow>
     truthy_string (access_token t) \<and> truthy_string (refresh_token t)
     \<and> truthy_number (expires_at t) \<and> \<not> kv_unavailable env (kv_ops env)
     \<and> TOKENS_KV env = Some (Text_json (JObject t))"
  by (auto simp: readTokens_def KV_get_def JSON_parse_def as_Tokens_def truthy_string_def
                 truthy_number_def
           split: if_splits option.splits sum.splits kv_text.splits json_value.splits)

lemma readTokens_unavailable:
  "kv_unavailable env (kv_ops env) \<Longrightarrow> fst (readTokens env) = None"
  by (simp add: readTokens_def KV_get_def)

text \<open>A later read of an unchanged store returns the same credential, or nothing.\<close>

lemma readTokens_later:
  "TOKENS_KV env' = TOKENS_KV env \<Longrightarrow> fst (readTokens env) = Some t \<Longrightarrow>
     fst (readTokens env') = None \<or> fst (readTokens env') = Some t"
  by (auto simp: readTokens_def KV_get_def split: if_splits option.splits sum.splits)

lemma writeTokens_ok_iff:
  "fst (writeTokens tokens env) = Inr () \<longleftrightarrow>
     truthy_string (access_token tokens) \<and> truthy_string (refresh_token tokens)
     \<and> truthy_number (expires_at tokens) \<and> \<not> kv_unavailable env (kv_ops env)"
  by (auto simp: writeTokens_def KV_put_def)

lemma writeTokens_ok_world:
  "fst (writeTokens tokens env) = Inr () \<Longrightarrow>
     snd (writeTokens tokens env) =
       env\<lparr>TOKENS_KV := Some (JSON_stringify tokens), kv_ops := Suc (kv_ops env)\<rparr>"
  by (auto simp: writeTokens_def KV_put_def split: if_splits)

lemma writeTokens_rejected:
  "\<not> (truthy_string (access_token t) \<and> truthy_string (refresh_token t)
      \<and> truthy_number (expires_at t)) \<Longrightarrow>
   writeTokens t env = (Inl FailedToSaveTokens, env)"
  by (auto simp: writeTokens_def)

lemma writeTokens_effects:
  "refresh_calls (snd (writeTokens t env)) = refresh_calls env"
  "api_requests (snd (writeTokens t env)) = api_requests env"
  by (simp_all add: writeTokens_def KV_put_def)

lemma readTokens_effects:
  "refresh_calls (snd (readTokens env)) = refresh_calls env"
  "api_requests (snd (readTokens env)) = api_requests env"
  "TOKENS_KV (snd (readTokens env)) = TOKENS_KV env"
  "clock (snd (readTokens env)) = clock env"
  "clock_reads (snd (readTokens env)) = clock_reads env"
  "SPOTIFY_CLIENT_ID (snd (readTokens env)) = SPOTIFY_CLIENT_ID env"
  "SPOTIFY_CLIENT_SECRET (snd (readTokens env)) = SPOTIFY_CLIENT_SECRET env"
  "token_endpoint (snd (readTokens env)) = token_endpoint env"
  "token_posts (snd (readTokens env)) = token_posts env"
  by (simp_all add: readTokens_state)

text \<open>
  What a read that follows a successful write returns: the record written when its expiry
  is finite and the store answers, and nothing otherwise.
\<close>

lemma readTokens_after_writeTokens:
  assumes "fst (writeTokens tokens env) = Inr ()"
  shows "fst (readTokens (snd (writeTokens tokens env))) =
           (if (\<exists>x. expires_at tokens = Some (Finite x))
               \<and> \<not> kv_unavailable env (Suc (kv_ops env))
            then Some tokens else None)"
proof -
  let ?env' = "env\<lparr>TOKENS_KV := Some (JSON_stringify tokens), kv_ops := Suc (kv_ops env)\<rparr>"
  have w: "snd (writeTokens tokens env) = ?env'"
    using assms by (rule writeTokens_ok_world)
  have valid: "truthy_string (access_token tokens)" "truthy_string (refresh_token tokens)"
      "truthy_number (expires_at tokens)"
    using assms by (simp_all add: writeTokens_ok_iff)
  show ?thesis
  proof (cases "kv_unavailable env (Suc (kv_ops env))")
    case True
    then show ?thesis unfolding w by (simp add: readTokens_unavailable)
  next
    case False
    obtain n where n: "expires_at tokens = Some n"
      using valid(3) by (auto simp: truthy_number_iff)
    show ?thesis
      unfolding w using False valid n
      by (cases n)
         (simp_all add: readTokens_def KV_get_def JSON_parse_def JSON_stringify_def as_Tokens_def
            truthy_number_def)
  qed
qed

text \<open>
  Claim C9, as stated, fails. \<^verbatim>\<open>writeTokens\<close> accepts a credential whose \<open>expires_at\<close> is
  infinite (an infinity is truthy); \<^verbatim>\<open>JSON.stringify\<close> writes it as \<^verbatim>\<open>null\<close>, and the read
  that follows returns \<^verbatim>\<open>null\<close>. And the read returns \<^verbatim>\<open>null\<close> whenever the store's \<^verbatim>\<open>get\<close>
  throws, also right after a \<^verbatim>\<open>put\<close> that succeeded: here the store fails its second
  operation.
\<close>

theorem store_round_trip_counterexample:
  "fst (writeTokens (stored_tokens PosInfinity) (example_world (Finite 4990) (Inl NetworkError) []))
     = Inr ()
   \<and> fst (readTokens (snd (writeTokens (stored_tokens PosInfinity)
                              (example_world (Finite 4990) (Inl NetworkError) []))))
     = None
   \<and> fst (writeTokens (stored_tokens (Finite 7777))
            (example_world (Finite 4990) (Inl NetworkError) [] \<lparr>kv_unavailable := \<lambda>k. k = 1\<rparr>))
     = Inr ()
   \<and> fst (readTokens (snd (writeTokens (stored_tokens (Finite 7777))
            (example_world (Finite 4990) (Inl NetworkError) [] \<lparr>kv_unavailable := \<lambda>k. k = 1\<rparr>))))
     = None"
  by (simp add: store_defs example_defs)

text \<open>
  Claim C9, amended. A credential that \<^verbatim>\<open>writeTokens\<close> accepts (it returns without
  throwing) and whose \<open>expires_at\<close> is a finite number is what the \<^verbatim>\<open>readTokens\<close> that
  follows returns, provided the store answers that read: the three fields are the ones
  written, and the read is not absent.
\<close>

theorem store_round_trip:
  assumes "fst (writeTokens tokens env) = Inr ()"
    and "expires_at tokens = Some (Finite x)"
    and "\<not> kv_unavailable (snd (writeTokens tokens env)) (kv_ops (snd (writeTokens tokens env)))"
  shows "fst (readTokens (snd (writeTokens tokens env))) = Some tokens"
proof -
  have "\<not> kv_unavailable env (Suc (kv_ops env))"
    using assms(3) by (simp add: writeTokens_ok_world [OF assms(1)])
  then show ?thesis
    using assms(2) by (simp add: readTokens_after_writeTokens [OF assms(1)])
qed

theorem store_round_trip_witness:
  "fst (writeTokens (stored_tokens (Finite 7777)) (example_world (Finite 4990) (Inl NetworkError) []))
     = Inr ()
   \<and> fst (readTokens (snd (writeTokens (stored_tokens (Finite 7777))
                              (example_world (Finite 4990) (Inl NetworkError) []))))
       = Some \<lparr>access_token = Some ''A1'', refresh_token = Some ''R1'',
               expires_at = Some (Finite 7777)\<rparr>"
proof -
  let ?W = "example_world (Finite 4990) (Inl NetworkError) []"
  have h1: "fst (writeTokens (stored_tokens (Finite 7777)) ?W) = Inr ()"
    by (simp add: store_defs example_defs)
  have h2: "expires_at (stored_tokens (Finite 7777)) = Some (Finite 7777)"
    by (simp add: stored_tokens_def)
  have h3: "\<not> kv_unavailable (snd (writeTokens (stored_tokens (Finite 7777)) ?W))
              (kv_ops (snd (writeTokens (stored_tokens (Finite 7777)) ?W)))"
    by (simp add: store_defs example_defs)
  from store_round_trip [OF h1 h2 h3] h1 show ?thesis
    by (simp add: stored_tokens_def)
qed

text \<open>
  Claim C10. No record with a falsy field crosses the store: when \<open>access_token\<close> or
  \<open>refresh_token\<close> is missing or empty, or \<open>expires_at\<close> is missing, 0 or \<^verbatim>\<open>NaN\<close>,
  \<^verbatim>\<open>readTokens\<close> returns \<^verbatim>\<open>null\<close> for the stored record and \<^verbatim>\<open>writeTokens\<close> throws and
  leaves the store as it was; so whatever \<^verbatim>\<open>readTokens\<close> returns or \<^verbatim>\<open>writeTokens\<close> accepts
  has a non-empty access token, a non-empty refresh token and an expiry other than 0.
\<close>

theorem store_boundary:
  "(access_token t = None \<or> access_token t = Some [] \<or> refresh_token t = None
      \<or> refresh_token t = Some [] \<or> expires_at t = None \<or> expires_at t = Some (Finite 0)
      \<or> expires_at t = Some NaN
    \<longrightarrow> fst (readTokens (env\<lparr>TOKENS_KV := Some (Text_json (JObject t))\<rparr>)) = None
        \<and> writeTokens t env = (Inl FailedToSaveTokens, env))
   \<and> (fst (readTokens env) = Some t \<or> fst (writeTokens t env) = Inr ()
    \<longrightarrow> (\<exists>a r e. access_token t = Some a \<and> a \<noteq> [] \<and> refresh_token t = Some r \<and> r \<noteq> []
           \<and> expires_at t = Some e \<and> e \<noteq> Finite 0 \<and> e \<noteq> NaN))"
proof (intro conjI impI)
  assume "access_token t = None \<or> access_token t = Some [] \<or> refresh_token t = None
      \<or> refresh_token t = Some [] \<or> expires_at t = None \<or> expires_at t = Some (Finite 0)
      \<or> expires_at t = Some NaN"
  then have falsy: "\<not> (truthy_string (access_token t) \<and> truthy_string (refresh_token t)
      \<and> truthy_number (expires_at t))"
    by (auto simp: truthy_string_def truthy_number_def)
  show "fst (readTokens (env\<lparr>TOKENS_KV := Some (Text_json (JObject t))\<rparr>)) = None"
    using falsy
    by (auto simp: readTokens_def KV_get_def JSON_parse_def as_Tokens_def)
  show "writeTokens t env = (Inl FailedToSaveTokens, env)"
    using falsy by (rule writeTokens_rejected)
next
  assume "fst (readTokens env) = Some t \<or> fst (writeTokens t env) = Inr ()"
  then have "truthy_string (access_token t) \<and> truthy_string (refresh_token t)
      \<and> truthy_number (expires_at t)"
    using readTokens_Some [of env t] by (auto simp: writeTokens_ok_iff)
  then show "\<exists>a r e. access_token t = Some a \<and> a \<noteq> [] \<and> refresh_token t = Some r \<and> r \<noteq> []
           \<and> expires_at t = Some e \<and> e \<noteq> Finite 0 \<and> e \<noteq> NaN"
    by (auto simp: truthy_string_iff truthy_number_iff)
qed

theorem store_boundary_witness:
  "expires_at (stored_tokens (Finite 0)) = Some (Finite 0)
   \<and> fst (readTokens (example_world (Finite 4990) (Inl NetworkError) []
                  \<lparr>TOKENS_KV := Some (Text_json (JObject (stored_tokens (Finite 0))))\<rparr>)) = None
   \<and> writeTokens (stored_tokens (Finite 0)) (example_world (Finite 4990) (Inl NetworkError) [])
       = (Inl FailedToSaveTokens, example_world (Finite 4990) (Inl NetworkError) [])
   \<and> fst (readTokens (example_world (Finite 4990) (Inl NetworkError) []))
       = Some (stored_tokens (Finite 4990))
   \<and> access_token (stored_tokens (Finite 4990)) = Some ''A1''
   \<and> refresh_token (stored_tokens (Finite 4990)) = Some ''R1''
   \<and> expires_at (stored_tokens (Finite 4990)) = Some (Finite 4990)"
proof -
  have zero: "expires_at (stored_tokens (Finite 0)) = Some (Finite 0)"
    by (simp add: stored_tokens_def)
  have stored: "fst (readTokens (example_world (Finite 4990) (Inl NetworkError) []))
      = Some (stored_tokens (Finite 4990))"
    by (simp add: store_defs example_defs)
  from store_boundary [of "stored_tokens (Finite 0)" "example_world (Finite 4990) (Inl NetworkError) []"]
    store_boundary [of "stored_tokens (Finite 4990)" "example_world (Finite 4990) (Inl NetworkError) []"]
    zero stored
  show ?thesis
    by (simp add: stored_tokens_def)
qed

section \<open>The credential manager\<close>

lemma Date_now_simps:
  "fst (Date_now env) = clock env (clock_reads env)"
  "TOKENS_KV (snd (Date_now env)) = TOKENS_KV env"
  "refresh_calls (snd (Date_now env)) = refresh_calls env"
  "api_requests (snd (Date_now env)) = api_requests env"
  by (simp_all add: Date_now_def)

lemma refreshAccessToken_effects:
  "refresh_calls (snd (refreshAccessToken rt env)) = Suc (refresh_calls env)"
  "TOKENS_KV (snd (refreshAccessToken rt env)) = TOKENS_KV env"
  "api_requests (snd (refreshAccessToken rt env)) = api_requests env"
  by (simp_all add: refreshAccessToken_def fetch_token_def Date_now_def readTokens_state Let_def
        case_prod_beta split: sum.splits option.splits)

lemma getAccessToken_fresh:
  assumes "fst (readTokens env) = Some tokens"
    and "number_gt (expires_at tokens) (of_integer (clock env (clock_reads env) div 1000 + 60))"
  shows "getAccessToken env = (access_token tokens, before_refresh env)"
proof -
  have "readTokens env = (Some tokens, env\<lparr>kv_ops := Suc (kv_ops env)\<rparr>)"
    using assms(1) readTokens_state [of env] by (simp add: prod_eq_iff)
  then show ?thesis
    using assms(2) by (simp add: getAccessToken_def Date_now_def Let_def)
qed

lemma getAccessToken_stale:
  assumes "fst (readTokens env) = Some tokens"
    and "\<not> number_gt (expires_at tokens) (of_integer (clock env (clock_reads env) div 1000 + 60))"
  shows "getAccessToken env =
    (case refreshAccessToken (refresh_token tokens) (before_refresh env) of
       (Inl e, env2) \<Rightarrow> (None, env2)
     | (Inr newTokens, env2) \<Rightarrow>
         (case writeTokens newTokens env2 of
            (Inl e, env3) \<Rightarrow> (None, env3)
          | (Inr u, env3) \<Rightarrow> (access_token newTokens, env3)))"
proof -
  have "readTokens env = (Some tokens, env\<lparr>kv_ops := Suc (kv_ops env)\<rparr>)"
    using assms(1) readTokens_state [of env] by (simp add: prod_eq_iff)
  then show ?thesis
    using assms(2) by (simp add: getAccessToken_def Date_now_def Let_def)
qed

lemma getAccessToken_absent:
  "fst (readTokens env) = None \<Longrightarrow> getAccessToken env = (None, snd (readTokens env))"
  by (cases "readTokens env") (simp add: getAccessToken_def)

lemma before_refresh_simps:
  "refresh_calls (before_refresh env) = refresh_calls env"
  "api_requests (before_refresh env) = api_requests env"
  "TOKENS_KV (before_refresh env) = TOKENS_KV env"
  "SPOTIFY_CLIENT_ID (before_refresh env) = SPOTIFY_CLIENT_ID env"
  "SPOTIFY_CLIENT_SECRET (before_refresh env) = SPOTIFY_CLIENT_SECRET env"
  "token_endpoint (before_refresh env) = token_endpoint env"
  "token_posts (before_refresh env) = token_posts env"
  by (simp_all add: Date_now_def readTokens_state)

lemma getAccessToken_stale_refresh_calls:
  assumes "fst (readTokens env) = Some tokens"
    and "\<not> number_gt (expires_at tokens) (of_integer (clock env (clock_reads env) div 1000 + 60))"
  shows "refresh_calls (snd (getAccessToken env)) = Suc (refresh_calls env)"
proof -
  obtain r env2 where r: "refreshAccessToken (refresh_token tokens) (before_refresh env) = (r, env2)"
    by (cases "refreshAccessToken (refresh_token tokens) (before_refresh env)")
  have c: "refresh_calls env2 = Suc (refresh_calls env)"
    using refreshAccessToken_effects(1) [of "refresh_token tokens" "before_refresh env"] r
    by (simp add: before_refresh_simps)
  show ?thesis
  proof (cases r)
    case (Inl e)
    then show ?thesis using r c by (simp add: getAccessToken_stale [OF assms])
  next
    case (Inr nt)
    obtain u env3 where w: "writeTokens nt env2 = (u, env3)" by (cases "writeTokens nt env2")
    have "refresh_calls env3 = refresh_calls env2"
      using writeTokens_effects(1) [of nt env2] w by simp
    then show ?thesis using r c Inr w
      by (cases u) (simp_all add: getAccessToken_stale [OF assms])
  qed
qed

lemma number_less_or_le: "e \<noteq> NaN \<Longrightarrow> number_less (Finite x) e \<or> number_le e (Finite x)"
  by (simp add: number_le_def)

text \<open>
  Claim C1. With a credential in the store, \<^verbatim>\<open>getAccessToken\<close> enters the refresh
  operation exactly when \<open>expires_at \<le> now + 60\<close>, \<open>now\<close> being the clock reading it
  takes, in seconds. One of \<open>expires_at > now + 60\<close> and \<open>expires_at \<le> now + 60\<close> holds.
  In the first case it returns the stored access token and the refresh operation is not
  entered; in the second the refresh operation is entered once, and a token that is
  returned is the access token the refresh produced.
\<close>

theorem getAccessToken_refresh_condition:
  assumes "fst (readTokens env) = Some tokens"
  shows "\<exists>e. expires_at tokens = Some e \<and>
     (let limit = of_integer (clock env (clock_reads env) div 1000 + 60) in
        (number_less limit e \<or> number_le e limit)
      \<and> (number_less limit e \<longrightarrow>
           fst (getAccessToken env) = access_token tokens
           \<and> refresh_calls (snd (getAccessToken env)) = refresh_calls env)
      \<and> (number_le e limit \<longrightarrow>
           refresh_calls (snd (getAccessToken env)) = Suc (refresh_calls env)
           \<and> (\<forall>a. fst (getAccessToken env) = Some a \<longrightarrow>
                (\<exists>newTokens.
                    fst (refreshAccessToken (refresh_token tokens) (before_refresh env))
                      = Inr newTokens
                  \<and> access_token newTokens = Some a))))"
proof -
  from readTokens_Some [OF assms] obtain e where e: "expires_at tokens = Some e" "e \<noteq> NaN"
    by (auto simp: truthy_number_iff)
  let ?limit = "of_integer (clock env (clock_reads env) div 1000 + 60)"
  have total: "number_less ?limit e \<or> number_le e ?limit"
    using e(2) by (simp add: of_integer_def number_less_or_le)
  have fresh: "number_less ?limit e \<Longrightarrow> fst (getAccessToken env) = access_token tokens
           \<and> refresh_calls (snd (getAccessToken env)) = refresh_calls env"
    using getAccessToken_fresh [OF assms] e
    by (simp add: number_gt_def before_refresh_simps)
  have stale: "\<not> number_gt (expires_at tokens) ?limit" if "number_le e ?limit"
    using that e by (simp add: number_gt_def number_le_def)
  have s1: "number_le e ?limit \<Longrightarrow> refresh_calls (snd (getAccessToken env)) = Suc (refresh_calls env)"
    using getAccessToken_stale_refresh_calls [OF assms stale] by simp
  have s2: "\<exists>newTokens. fst (refreshAccessToken (refresh_token tokens) (before_refresh env)) = Inr newTokens
                   \<and> access_token newTokens = Some a"
    if "number_le e ?limit" and "fst (getAccessToken env) = Some a" for a
    using that(2) unfolding getAccessToken_stale [OF assms stale [OF that(1)]]
    by (auto split: prod.splits sum.splits)
  show ?thesis using e total fresh s1 s2 by (simp add: Let_def)
qed

theorem getAccessToken_refresh_condition_witness:
  "fst (readTokens (example_world (Finite 9000) (Inl NetworkError) []))
     = Some (stored_tokens (Finite 9000))
   \<and> fst (getAccessToken (example_world (Finite 9000) (Inl NetworkError) [])) = Some ''A1''
   \<and> refresh_calls (snd (getAccessToken (example_world (Finite 9000) (Inl NetworkError) []))) = 0
   \<and> fst (readTokens (example_world (Finite 5060) (Inl NetworkError) []))
     = Some (stored_tokens (Finite 5060))
   \<and> refresh_calls (snd (getAccessToken (example_world (Finite 5060) (Inl NetworkError) []))) = 1"
proof -
  have fresh: "fst (readTokens (example_world (Finite 9000) (Inl NetworkError) []))
      = Some (stored_tokens (Finite 9000))"
    by (simp add: store_defs example_defs)
  have stale: "fst (readTokens (example_world (Finite 5060) (Inl NetworkError) []))
      = Some (stored_tokens (Finite 5060))"
    by (simp add: store_defs example_defs)
  from getAccessToken_refresh_condition [OF fresh] getAccessToken_refresh_condition [OF stale]
    fresh stale
  show ?thesis
    by (simp add: example_defs of_integer_def number_le_def Let_def)
qed

lemma refresh_failure_causes:
  assumes "\<not> truthy_string (SPOTIFY_CLIENT_ID env) \<or> \<not> truthy_string (SPOTIFY_CLIENT_SECRET env)
     \<or> isl (token_endpoint env (token_posts env) (Refresh_token rt))
     \<or> (case token_endpoint env (token_posts env) (Refresh_token rt) of Inl e \<Rightarrow> False | Inr r \<Rightarrow> \<not> ok r)"
  shows "isl (fst (refreshAccessToken rt env))"
  using assms by (auto simp: refreshAccessToken_def fetch_token_def Let_def split: sum.splits)

text \<open>
  Claim C7. With a stored credential that needs a refresh, when the refresh operation
  fails (the client id or secret is missing, the request to the token endpoint is
  rejected, the answer has a non-success status, or \<^verbatim>\<open>refreshAccessToken\<close> throws for any
  other reason), \<^verbatim>\<open>getAccessToken\<close> returns \<^verbatim>\<open>null\<close>, which is a result and not an error,
  and the store holds what it held before.
\<close>

theorem getAccessToken_refresh_failure:
  assumes "fst (readTokens env) = Some tokens"
    and "\<not> number_gt (expires_at tokens) (of_integer (clock env (clock_reads env) div 1000 + 60))"
    and "\<not> truthy_string (SPOTIFY_CLIENT_ID env) \<or> \<not> truthy_string (SPOTIFY_CLIENT_SECRET env)
     \<or> isl (token_endpoint env (token_posts env) (Refresh_token (refresh_token tokens)))
     \<or> (case token_endpoint env (token_posts env) (Refresh_token (refresh_token tokens)) of
           Inl e \<Rightarrow> False | Inr r \<Rightarrow> \<not> ok r)
     \<or> isl (fst (refreshAccessToken (refresh_token tokens) (before_refresh env)))"
  shows "fst (getAccessToken env) = None
     \<and> TOKENS_KV (snd (getAccessToken env)) = TOKENS_KV env"
proof -
  let ?env1 = "before_refresh env"
  have "isl (fst (refreshAccessToken (refresh_token tokens) ?env1))"
    using assms(3) refresh_failure_causes [of ?env1 "refresh_token tokens"]
    unfolding before_refresh_simps by blast
  then obtain e env2 where r: "refreshAccessToken (refresh_token tokens) ?env1 = (Inl e, env2)"
    by (cases "refreshAccessToken (refresh_token tokens) ?env1") (auto simp: isl_def)
  have g: "getAccessToken env = (None, env2)"
    using r by (simp add: getAccessToken_stale [OF assms(1,2)])
  have kv: "TOKENS_KV env2 = TOKENS_KV env"
    using refreshAccessToken_effects(2) [of "refresh_token tokens" ?env1] r
    by (simp add: before_refresh_simps)
  show ?thesis using g kv by simp
qed

theorem getAccessToken_refresh_failure_witness:
  "fst (readTokens (example_world (Finite 4990) (Inl NetworkError) []))
     = Some (stored_tokens (Finite 4990))
   \<and> \<not> number_gt (expires_at (stored_tokens (Finite 4990))) (of_integer (5000 + 60))
   \<and> isl (token_endpoint (example_world (Finite 4990) (Inl NetworkError) []) 0
            (Refresh_token (Some ''R1'')))
   \<and> fst (getAccessToken (example_world (Finite 4990) (Inl NetworkError) [])) = None
   \<and> TOKENS_KV (snd (getAccessToken (example_world (Finite 4990) (Inl NetworkError) [])))
       = Some (Text_json (JObject (stored_tokens (Finite 4990))))"
proof -
  let ?W = "example_world (Finite 4990) (Inl NetworkError) []"
  have h1: "fst (readTokens ?W) = Some (stored_tokens (Finite 4990))"
    by (simp add: store_defs example_defs)
  have h2: "\<not> number_gt (expires_at (stored_tokens (Finite 4990)))
               (of_integer (clock ?W (clock_reads ?W) div 1000 + 60))"
    by (simp add: number_gt_def of_integer_def example_defs)
  have h3: "isl (token_endpoint ?W (token_posts ?W) (Refresh_token (refresh_token (stored_tokens (Finite 4990)))))"
    by (simp add: example_defs)
  from getAccessToken_refresh_failure [OF h1 h2] h3 h1 h2 show ?thesis
    by (simp add: example_defs number_gt_def of_integer_def)
qed

lemma refreshAccessToken_Inr:
  assumes "refreshAccessToken rt env = (Inr newTokens, env')"
  shows "\<exists>response data.
      token_endpoint env (token_posts env) (Refresh_token rt) = Inr response \<and> ok response
      \<and> json response = Some data
      \<and> newTokens = \<lparr>access_token = data_access_token data,
            refresh_token = string_or (data_refresh_token data)
               (string_or
                  (case fst (readTokens (env\<lparr>refresh_calls := Suc (refresh_calls env),
                                            token_posts := Suc (token_posts env)\<rparr>)) of
                     None \<Rightarrow> None
                   | Some current \<Rightarrow> refresh_token current)
                  rt),
            expires_at =
              Some (number_add (of_integer (clock env (clock_reads env) div 1000))
                      (number_or (data_expires_in data) (Finite 3600)))\<rparr>"
  using assms
  by (auto simp: refreshAccessToken_def fetch_token_def Date_now_def Let_def case_prod_beta
                 readTokens_state
           split: if_splits sum.splits option.splits)

text \<open>
  The refresh fills a missing \<open>refresh_token\<close> from the re-read of the store, and from
  its argument when that re-read returns nothing.
\<close>

lemma refreshAccessToken_keeps_refresh_token:
  assumes "fst (readTokens env0) = Some tokens"
    and "TOKENS_KV env = TOKENS_KV env0"
    and "token_endpoint env (token_posts env) (Refresh_token (refresh_token tokens)) = Inr response"
    and "json response = Some data"
    and "data_refresh_token data = None"
    and "refreshAccessToken (refresh_token tokens) env = (Inr newTokens, env1)"
  shows "refresh_token newTokens = refresh_token tokens"
proof -
  let ?env' = "env\<lparr>refresh_calls := Suc (refresh_calls env),
                      token_posts := Suc (token_posts env)\<rparr>"
  have stored: "truthy_string (refresh_token tokens)"
    using readTokens_Some [OF assms(1)] by simp
  have "fst (readTokens ?env') = None \<or> fst (readTokens ?env') = Some tokens"
    using assms(1) by (intro readTokens_later [of _ env0]) (simp add: assms(2))
  then have current: "string_or (case fst (readTokens ?env') of None \<Rightarrow> None
                                  | Some current \<Rightarrow> refresh_token current)
                        (refresh_token tokens) = refresh_token tokens"
    using stored by (auto simp: string_or_def truthy_string_def)
  from refreshAccessToken_Inr [OF assms(6)] assms(3,4,5)
  have "refresh_token newTokens =
      string_or None (string_or (case fst (readTokens ?env') of None \<Rightarrow> None
                                  | Some current \<Rightarrow> refresh_token current)
                        (refresh_token tokens))"
    by auto
  then show ?thesis
    using current by (simp add: string_or_def truthy_string_def)
qed

text \<open>
  Claim C4. A caller reads the credential and, with the store unchanged, calls
  \<^verbatim>\<open>refreshAccessToken\<close> with its refresh token. When the issuer's answer has no
  \<open>refresh_token\<close>, the credential returned carries the refresh token that was stored
  before the refresh, also when the re-read of the store fails. Once the caller has
  written it with \<^verbatim>\<open>writeTokens\<close>, as both callers do, the record in the store carries
  that refresh token, and so does whatever the next read returns; that read returns the
  new credential when its expiry is finite and the store answers. The two lemmas
  \<open>getAccessToken_carries_refresh_token\<close> and \<open>spotifyFetch_carries_refresh_token\<close>
  below state the same of the record each caller leaves in the store.
\<close>

theorem refresh_token_carried_forward:
  assumes "fst (readTokens env0) = Some tokens"
    and "TOKENS_KV env = TOKENS_KV env0"
    and "token_endpoint env (token_posts env) (Refresh_token (refresh_token tokens)) = Inr response"
    and "json response = Some data"
    and "data_refresh_token data = None"
    and "refreshAccessToken (refresh_token tokens) env = (Inr newTokens, env1)"
  shows "refresh_token newTokens = refresh_token tokens
     \<and> (fst (writeTokens newTokens env1) = Inr () \<longrightarrow>
          (\<exists>persisted.
              TOKENS_KV (snd (writeTokens newTokens env1)) = Some (Text_json (JObject persisted))
            \<and> refresh_token persisted = refresh_token tokens)
        \<and> (\<forall>persisted. fst (readTokens (snd (writeTokens newTokens env1))) = Some persisted
              \<longrightarrow> refresh_token persisted = refresh_token tokens)
        \<and> ((\<exists>x. expires_at newTokens = Some (Finite x))
             \<and> \<not> kv_unavailable (snd (writeTokens newTokens env1))
                   (kv_ops (snd (writeTokens newTokens env1)))
            \<longrightarrow> fst (readTokens (snd (writeTokens newTokens env1))) = Some newTokens))"
proof -
  have rt: "refresh_token newTokens = refresh_token tokens"
    using assms by (rule refreshAccessToken_keeps_refresh_token)
  have persisted: "\<exists>persisted.
              TOKENS_KV (snd (writeTokens newTokens env1)) = Some (Text_json (JObject persisted))
            \<and> refresh_token persisted = refresh_token tokens"
    if w: "fst (writeTokens newTokens env1) = Inr ()"
    unfolding writeTokens_ok_world [OF w] using rt by (simp add: JSON_stringify_def)
  have read: "refresh_token p = refresh_token tokens"
    if w: "fst (writeTokens newTokens env1) = Inr ()"
      and "fst (readTokens (snd (writeTokens newTokens env1))) = Some p" for p
    using that(2) rt unfolding readTokens_after_writeTokens [OF w]
    by (auto split: if_splits)
  have reread: "fst (readTokens (snd (writeTokens newTokens env1))) = Some newTokens"
    if w: "fst (writeTokens newTokens env1) = Inr ()"
      and "\<exists>x. expires_at newTokens = Some (Finite x)"
      and "\<not> kv_unavailable (snd (writeTokens newTokens env1))
                   (kv_ops (snd (writeTokens newTokens env1)))"
    using that(2,3) unfolding readTokens_after_writeTokens [OF w]
    by (simp add: writeTokens_ok_world [OF w])
  show ?thesis using rt persisted read reread by blast
qed

theorem refresh_token_carried_forward_witness:
  "fst (readTokens (example_world (Finite 4990) (Inr (issuer_answer (Some (Finite 3600)))) []))
     = Some (stored_tokens (Finite 4990))
   \<and> refresh_token (stored_tokens (Finite 4990)) = Some ''R1''
   \<and> map_option data_refresh_token (json (issuer_answer (Some (Finite 3600)))) = Some None
   \<and> fst (refreshAccessToken (Some ''R1'')
            (example_world (Finite 4990) (Inr (issuer_answer (Some (Finite 3600)))) []))
       = Inr \<lparr>access_token = Some ''A2'', refresh_token = Some ''R1'',
              expires_at = Some (Finite 8600)\<rparr>
   \<and> map_option refresh_token
        (fst (readTokens (snd (writeTokens
           \<lparr>access_token = Some ''A2'', refresh_token = Some ''R1'',
              expires_at = Some (Finite 8600)\<rparr>
           (snd (refreshAccessToken (Some ''R1'')
                   (example_world (Finite 4990) (Inr (issuer_answer (Some (Finite 3600)))) [])))))))
       = Some (Some ''R1'')"
proof -
  let ?W = "example_world (Finite 4990) (Inr (issuer_answer (Some (Finite 3600)))) []"
  let ?data = "\<lparr>data_access_token = Some ''A2'', data_refresh_token = None,
                   data_expires_in = Some (Finite 3600)\<rparr>"
  let ?new = "\<lparr>access_token = Some ''A2'', refresh_token = Some ''R1'',
                  expires_at = Some (Finite 8600)\<rparr>"
  let ?W1 = "snd (refreshAccessToken (Some ''R1'') ?W)"
  have h1: "fst (readTokens ?W) = Some (stored_tokens (Finite 4990))"
    by (simp add: store_defs example_defs)
  have h2: "TOKENS_KV ?W = TOKENS_KV ?W"
    by simp
  have h3: "token_endpoint ?W (token_posts ?W)
              (Refresh_token (refresh_token (stored_tokens (Finite 4990))))
      = Inr (issuer_answer (Some (Finite 3600)))"
    by (simp add: example_defs)
  have h4: "json (issuer_answer (Some (Finite 3600))) = Some ?data"
    by (simp add: example_defs)
  have h5: "data_refresh_token ?data = None"
    by simp
  have r: "fst (refreshAccessToken (Some ''R1'') ?W) = Inr ?new"
    by (simp add: spotify_defs example_defs Let_def)
  have h6: "refreshAccessToken (refresh_token (stored_tokens (Finite 4990))) ?W = (Inr ?new, ?W1)"
    using r by (simp add: stored_tokens_def prod_eq_iff)
  have w: "fst (writeTokens ?new ?W1) = Inr ()"
    by (simp add: spotify_defs example_defs Let_def)
  have fin: "\<exists>x. expires_at ?new = Some (Finite x)"
    by simp
  have up: "\<not> kv_unavailable (snd (writeTokens ?new ?W1)) (kv_ops (snd (writeTokens ?new ?W1)))"
    by (simp add: spotify_defs example_defs Let_def)
  from refresh_token_carried_forward [OF h1 h2 h3 h4 h5 h6] w fin up
  have "fst (readTokens (snd (writeTokens ?new ?W1))) = Some ?new
      \<and> refresh_token ?new = refresh_token (stored_tokens (Finite 4990))"
    by blast
  then show ?thesis using h1 h4 r
    by (simp add: stored_tokens_def)
qed

text \<open>
  What \<^verbatim>\<open>getAccessToken\<close> leaves in the store when it returns a refreshed token: the
  text of the credential the refresh produced.
\<close>

lemma getAccessToken_persists:
  assumes "fst (readTokens env) = Some tokens"
    and "\<not> number_gt (expires_at tokens) (of_integer (clock env (clock_reads env) div 1000 + 60))"
    and "fst (refreshAccessToken (refresh_token tokens) (before_refresh env)) = Inr newTokens"
    and "fst (getAccessToken env) \<noteq> None"
  shows "fst (getAccessToken env) = access_token newTokens
     \<and> TOKENS_KV (snd (getAccessToken env)) = Some (JSON_stringify newTokens)"
proof -
  obtain env2 where r: "refreshAccessToken (refresh_token tokens) (before_refresh env) = (Inr newTokens, env2)"
    using assms(3) by (cases "refreshAccessToken (refresh_token tokens) (before_refresh env)") simp
  obtain u env3 where w: "writeTokens newTokens env2 = (u, env3)"
    by (cases "writeTokens newTokens env2")
  have g: "getAccessToken env = (case u of Inl e \<Rightarrow> (None, env3) | Inr x \<Rightarrow> (access_token newTokens, env3))"
    using r w by (simp add: getAccessToken_stale [OF assms(1,2)] split: sum.splits)
  with assms(4) have u: "u = Inr ()" by (cases u) auto
  have "TOKENS_KV env3 = Some (JSON_stringify newTokens)"
    using writeTokens_ok_world [of newTokens env2] w u by simp
  then show ?thesis using g u by simp
qed

text \<open>
  When the issuer's answer has no \<open>refresh_token\<close>, the record \<^verbatim>\<open>getAccessToken\<close>
  leaves in the store after a refresh carries the refresh token stored before.
\<close>

lemma getAccessToken_carries_refresh_token:
  assumes "fst (readTokens env) = Some tokens"
    and "\<not> number_gt (expires_at tokens) (of_integer (clock env (clock_reads env) div 1000 + 60))"
    and "token_endpoint env (token_posts env) (Refresh_token (refresh_token tokens)) = Inr response"
    and "json response = Some data"
    and "data_refresh_token data = None"
    and "fst (getAccessToken env) \<noteq> None"
  shows "\<exists>persisted.
      TOKENS_KV (snd (getAccessToken env)) = Some (Text_json (JObject persisted))
    \<and> refresh_token persisted = refresh_token tokens
    \<and> access_token persisted = fst (getAccessToken env)"
proof -
  obtain r env2 where r: "refreshAccessToken (refresh_token tokens) (before_refresh env) = (r, env2)"
    by (cases "refreshAccessToken (refresh_token tokens) (before_refresh env)")
  obtain newTokens where n: "r = Inr newTokens"
    using assms(6) r by (cases r) (simp_all add: getAccessToken_stale [OF assms(1,2)])
  have endpoint: "token_endpoint (before_refresh env) (token_posts (before_refresh env))
      (Refresh_token (refresh_token tokens)) = Inr response"
    using assms(3) by (simp add: before_refresh_simps)
  have rt: "refresh_token newTokens = refresh_token tokens"
    using assms(1) before_refresh_simps(3) endpoint assms(4,5) r [unfolded n]
    by (rule refreshAccessToken_keeps_refresh_token)
  have "fst (refreshAccessToken (refresh_token tokens) (before_refresh env)) = Inr newTokens"
    using r n by simp
  from getAccessToken_persists [OF assms(1,2) this assms(6)] rt
  show ?thesis
    by (simp add: JSON_stringify_def)
qed

lemma exchangeCodeForTokens_Inr:
  assumes "exchangeCodeForTokens code redirectUri env = (Inr newTokens, env')"
  shows "\<exists>response data.
      token_endpoint env (token_posts env) (Authorization_code code redirectUri) = Inr response \<and> ok response
      \<and> json response = Some data
      \<and> newTokens = \<lparr>access_token = data_access_token data,
            refresh_token = data_refresh_token data,
            expires_at =
              Some (number_add (of_integer (clock env (clock_reads env) div 1000))
                      (number_or (data_expires_in data) (Finite 3600)))\<rparr>"
  using assms
  by (auto simp: exchangeCodeForTokens_def fetch_token_def Date_now_def Let_def
           split: if_splits sum.splits option.splits)

lemma number_or_cases:
  "number_or v d =
     (case v of
        None \<Rightarrow> d
      | Some lifetime \<Rightarrow> if lifetime = Finite 0 \<or> lifetime = NaN then d else lifetime)"
  by (simp add: number_or_def truthy_number_def split: option.splits)

text \<open>
  Claim C8, as stated, fails: a lifetime of 0 reported by the issuer is falsy, so
  \<^verbatim>\<open>data.expires_in || 3600\<close> takes the default. Here the issuer answers with
  \<open>expires_in = 0\<close> at second 5000 and the new credential expires at 8600, not at 5000.
\<close>

theorem zero_lifetime_counterexample:
  "token_endpoint (example_world (Finite 4990) (Inr (issuer_answer (Some (Finite 0)))) []) 0
       (Refresh_token (Some ''R1'')) = Inr (issuer_answer (Some (Finite 0)))
   \<and> map_option data_expires_in (json (issuer_answer (Some (Finite 0)))) = Some (Some (Finite 0))
   \<and> clock (example_world (Finite 4990) (Inr (issuer_answer (Some (Finite 0)))) []) 0 div 1000
       = 5000
   \<and> fst (refreshAccessToken (Some ''R1'')
            (example_world (Finite 4990) (Inr (issuer_answer (Some (Finite 0)))) []))
       = Inr \<lparr>access_token = Some ''A2'', refresh_token = Some ''R1'',
              expires_at = Some (Finite 8600)\<rparr>
   \<and> Finite 8600 \<noteq> number_add (of_integer 5000) (Finite 0)"
  by (simp add: spotify_defs example_defs Let_def)

text \<open>
  Claim C8, amended. For every successful refresh and every successful code exchange,
  the new credential's \<open>expires_at\<close> is \<open>now\<close> (the clock reading taken when the
  credential is built, in seconds) plus the issuer's \<open>expires_in\<close> when the issuer supplies
  one that is truthy (neither 0 nor \<^verbatim>\<open>NaN\<close>), and \<open>now + 3600\<close> when the issuer omits it or
  reports 0.
\<close>

theorem new_expiry:
  "(refreshAccessToken refreshToken env = (Inr newTokens, env') \<longrightarrow>
      (\<exists>response data.
          token_endpoint env (token_posts env) (Refresh_token refreshToken) = Inr response
        \<and> json response = Some data
        \<and> expires_at newTokens =
            Some (number_add (of_integer (clock env (clock_reads env) div 1000))
                    (case data_expires_in data of
                       None \<Rightarrow> Finite 3600
                     | Some lifetime \<Rightarrow>
                         if lifetime = Finite 0 \<or> lifetime = NaN then Finite 3600
                         else lifetime))))
   \<and> (exchangeCodeForTokens code redirectUri env = (Inr newTokens, env') \<longrightarrow>
      (\<exists>response data.
          token_endpoint env (token_posts env) (Authorization_code code redirectUri) = Inr response
        \<and> json response = Some data
        \<and> expires_at newTokens =
            Some (number_add (of_integer (clock env (clock_reads env) div 1000))
                    (case data_expires_in data of
                       None \<Rightarrow> Finite 3600
                     | Some lifetime \<Rightarrow>
                         if lifetime = Finite 0 \<or> lifetime = NaN then Finite 3600
                         else lifetime))))"
proof (intro conjI impI)
  assume "refreshAccessToken refreshToken env = (Inr newTokens, env')"
  from refreshAccessToken_Inr [OF this] obtain response data where
    h: "token_endpoint env (token_posts env) (Refresh_token refreshToken) = Inr response"
       "json response = Some data"
       "expires_at newTokens =
          Some (number_add (of_integer (clock env (clock_reads env) div 1000))
                  (number_or (data_expires_in data) (Finite 3600)))"
    by auto
  show "\<exists>response data.
          token_endpoint env (token_posts env) (Refresh_token refreshToken) = Inr response
        \<and> json response = Some data
        \<and> expires_at newTokens =
            Some (number_add (of_integer (clock env (clock_reads env) div 1000))
                    (case data_expires_in data of
                       None \<Rightarrow> Finite 3600
                     | Some lifetime \<Rightarrow>
                         if lifetime = Finite 0 \<or> lifetime = NaN then Finite 3600
                         else lifetime))"
    using h unfolding number_or_cases by blast
next
  assume "exchangeCodeForTokens code redirectUri env = (Inr newTokens, env')"
  from exchangeCodeForTokens_Inr [OF this] obtain response data where
    h: "token_endpoint env (token_posts env) (Authorization_code code redirectUri) = Inr response"
       "json response = Some data"
       "expires_at newTokens =
          Some (number_add (of_integer (clock env (clock_reads env) div 1000))
                  (number_or (data_expires_in data) (Finite 3600)))"
    by auto
  show "\<exists>response data.
          token_endpoint env (token_posts env) (Authorization_code code redirectUri) = Inr response
        \<and> json response = Some data
        \<and> expires_at newTokens =
            Some (number_add (of_integer (clock env (clock_reads env) div 1000))
                    (case data_expires_in data of
                       None \<Rightarrow> Finite 3600
                     | Some lifetime \<Rightarrow>
                         if lifetime = Finite 0 \<or> lifetime = NaN then Finite 3600
                         else lifetime))"
    using h unfolding number_or_cases by blast
qed

theorem new_expiry_witness:
  "\<not> isl (fst (refreshAccessToken (Some ''R1'')
                 (example_world (Finite 4990) (Inr (issuer_answer (Some (Finite 1800)))) [])))
   \<and> map_sum id expires_at
        (fst (refreshAccessToken (Some ''R1'')
                (example_world (Finite 4990) (Inr (issuer_answer (Some (Finite 1800)))) [])))
       = Inr (Some (Finite 6800))
   \<and> \<not> isl (fst (exchangeCodeForTokens ''code'' ''uri''
                 (example_world (Finite 4990) (Inr (issuer_answer None)) [])))
   \<and> map_sum id expires_at
        (fst (exchangeCodeForTokens ''code'' ''uri''
                (example_world (Finite 4990) (Inr (issuer_answer None)) [])))
       = Inr (Some (Finite 8600))"
proof -
  let ?W = "example_world (Finite 4990) (Inr (issuer_answer (Some (Finite 1800)))) []"
  let ?V = "example_world (Finite 4990) (Inr (issuer_answer None)) []"
  have a: "\<not> isl (fst (refreshAccessToken (Some ''R1'') ?W))"
    by (simp add: spotify_defs example_defs Let_def)
  have b: "\<not> isl (fst (exchangeCodeForTokens ''code'' ''uri'' ?V))"
    by (simp add: spotify_defs example_defs Let_def)
  obtain t1 w1 where r: "refreshAccessToken (Some ''R1'') ?W = (Inr t1, w1)"
    using a by (cases "refreshAccessToken (Some ''R1'') ?W"; cases "fst (refreshAccessToken (Some ''R1'') ?W)")
      auto
  obtain t2 w2 where x: "exchangeCodeForTokens ''code'' ''uri'' ?V = (Inr t2, w2)"
    using b by (cases "exchangeCodeForTokens ''code'' ''uri'' ?V";
                cases "fst (exchangeCodeForTokens ''code'' ''uri'' ?V)") auto
  from new_expiry [of "Some ''R1''" ?W t1 w1 "''code''" "''uri''"] r
  have e1: "expires_at t1 = Some (Finite 6800)"
    by (simp add: example_defs of_integer_def)
  from new_expiry [of "Some ''R1''" ?V t2 w2 "''code''" "''uri''"] x
  have e2: "expires_at t2 = Some (Finite 8600)"
    by (simp add: example_defs of_integer_def)
  show ?thesis
    using a b r x e1 e2 by simp
qed

section \<open>The authenticated fetch\<close>

lemma getAccessToken_api_requests:
  "api_requests (snd (getAccessToken env)) = api_requests env"
proof (cases "fst (readTokens env)")
  case None
  then show ?thesis by (simp add: getAccessToken_absent readTokens_effects)
next
  case (Some tokens)
  show ?thesis
  proof (cases "number_gt (expires_at tokens) (of_integer (clock env (clock_reads env) div 1000 + 60))")
    case True
    then show ?thesis using getAccessToken_fresh [OF Some True] by (simp add: before_refresh_simps)
  next
    case False
    obtain r env2 where r: "refreshAccessToken (refresh_token tokens) (before_refresh env) = (r, env2)"
      by (cases "refreshAccessToken (refresh_token tokens) (before_refresh env)")
    have c: "api_requests env2 = api_requests env"
      using refreshAccessToken_effects(3) [of "refresh_token tokens" "before_refresh env"] r
      by (simp add: before_refresh_simps)
    show ?thesis
    proof (cases r)
      case (Inl e)
      then show ?thesis using r c by (simp add: getAccessToken_stale [OF Some False])
    next
      case (Inr nt)
      obtain u env3 where w: "writeTokens nt env2 = (u, env3)" by (cases "writeTokens nt env2")
      have "api_requests env3 = api_requests env2"
        using writeTokens_effects(2) [of nt env2] w by simp
      then show ?thesis using r c Inr w
        by (cases u) (simp_all add: getAccessToken_stale [OF Some False])
    qed
  qed
qed

lemma getAccessToken_refresh_calls:
  "refresh_calls (snd (getAccessToken env)) \<le> Suc (refresh_calls env)"
proof (cases "fst (readTokens env)")
  case None
  then show ?thesis by (simp add: getAccessToken_absent readTokens_effects)
next
  case (Some tokens)
  show ?thesis
  proof (cases "number_gt (expires_at tokens) (of_integer (clock env (clock_reads env) div 1000 + 60))")
    case True
    then show ?thesis using getAccessToken_fresh [OF Some True] by (simp add: before_refresh_simps)
  next
    case False
    then show ?thesis using getAccessToken_stale_refresh_calls [OF Some False] by simp
  qed
qed

lemma fetch_api_effects:
  "api_requests (snd (fetch_api url options bearer env)) = Suc (api_requests env)"
  "refresh_calls (snd (fetch_api url options bearer env)) = refresh_calls env"
  by (simp_all add: fetch_api_def)

text \<open>
  Claim C2, as stated, fails: \<^verbatim>\<open>spotifyFetch\<close> first calls \<^verbatim>\<open>getAccessToken\<close>, which
  refreshes a credential that is about to expire, and a 401 then triggers a second
  refresh. Here the stored credential expired at 4990 (the clock is at 5000), the token
  endpoint answers every refresh, and the resource API answers 401 and then 200: the
  first request returns 401 and the call enters the refresh operation twice.
\<close>

theorem spotifyFetch_two_refreshes_counterexample:
  "fst (getAccessToken (example_world (Finite 4990) (Inr (issuer_answer (Some (Finite 3600))))
                           [Inr (answer 401), Inr (answer 200)])) = Some ''A2''
   \<and> fst (fetch_api (SPOTIFY_API_BASE @ ''/me/player/devices'') GET (Some ''A2'')
             (snd (getAccessToken (example_world (Finite 4990) (Inr (issuer_answer (Some (Finite 3600))))
                                    [Inr (answer 401), Inr (answer 200)]))))
       = Inr (answer 401)
   \<and> status (answer 401) = 401
   \<and> refresh_calls (example_world (Finite 4990) (Inr (issuer_answer (Some (Finite 3600))))
                       [Inr (answer 401), Inr (answer 200)]) = 0
   \<and> refresh_calls (snd (spotifyFetch ''/me/player/devices'' GET
                            (example_world (Finite 4990) (Inr (issuer_answer (Some (Finite 3600))))
                               [Inr (answer 401), Inr (answer 200)]))) = 2
   \<and> fst (spotifyFetch ''/me/player/devices'' GET
             (example_world (Finite 4990) (Inr (issuer_answer (Some (Finite 3600))))
                [Inr (answer 401), Inr (answer 200)])) = Inr (answer 200)"
  by (simp add: spotify_defs example_defs Let_def)

text \<open>
  Claim C2, amended. For every call of \<^verbatim>\<open>spotifyFetch\<close> whose first request returns 401:
  at most two requests are made to the resource API (at most one retry); the refresh
  operation is entered at most once after the first request, and at most twice in the
  call, the other time being the refresh \<^verbatim>\<open>getAccessToken\<close> may have made before the first
  request; and when the re-read finds no credential, or the refresh operation fails, the
  result is the first 401 response itself and no second request is made.
\<close>

theorem spotifyFetch_on_401:
  assumes "getAccessToken env = (accessToken, env1)"
    and "truthy_string accessToken"
    and "fetch_api (if take 4 path = ''http'' then path else SPOTIFY_API_BASE @ path)
           options accessToken env1 = (Inr response, env2)"
    and "status response = 401"
  shows "api_requests (snd (spotifyFetch path options env)) \<le> api_requests env + 2
     \<and> refresh_calls (snd (spotifyFetch path options env)) \<le> refresh_calls env2 + 1
     \<and> refresh_calls env2 \<le> refresh_calls env + 1
     \<and> (fst (readTokens env2) = None
          \<longrightarrow> spotifyFetch path options env = (Inr response, snd (readTokens env2)))
     \<and> (\<forall>tokens. fst (readTokens env2) = Some tokens
            \<and> isl (fst (refreshAccessToken (refresh_token tokens) (snd (readTokens env2))))
          \<longrightarrow> fst (spotifyFetch path options env) = Inr response
              \<and> api_requests (snd (spotifyFetch path options env)) = api_requests env + 1)"
proof -
  let ?url = "if take 4 path = ''http'' then path else SPOTIFY_API_BASE @ path"
  let ?env3 = "snd (readTokens env2)"
  have a1: "api_requests env1 = api_requests env"
    using getAccessToken_api_requests [of env] assms(1) by simp
  have r1: "refresh_calls env1 \<le> refresh_calls env + 1"
    using getAccessToken_refresh_calls [of env] assms(1) by simp
  have a2: "api_requests env2 = api_requests env + 1"
    using fetch_api_effects(1) [of ?url options accessToken env1] assms(3) a1 by simp
  have r2: "refresh_calls env2 = refresh_calls env1"
    using fetch_api_effects(2) [of ?url options accessToken env1] assms(3) by simp
  have e3: "refresh_calls ?env3 = refresh_calls env2" "api_requests ?env3 = api_requests env2"
    by (simp_all add: readTokens_effects)
  have unfold: "spotifyFetch path options env =
      (case fst (readTokens env2) of
         None \<Rightarrow> (Inr response, ?env3)
       | Some tokens \<Rightarrow>
           (case refreshAccessToken (refresh_token tokens) ?env3 of
              (Inl e, env4) \<Rightarrow> (Inr response, env4)
            | (Inr newTokens, env4) \<Rightarrow>
                (case writeTokens newTokens env4 of
                   (Inl e, env5) \<Rightarrow> (Inr response, env5)
                 | (Inr u, env5) \<Rightarrow> fetch_api ?url options (access_token newTokens) env5)))"
    using assms by (simp add: spotifyFetch_def Let_def case_prod_beta split: option.splits)
  show ?thesis
  proof (cases "fst (readTokens env2)")
    case None
    then show ?thesis using unfold a2 r1 r2 e3 by simp
  next
    case (Some tokens)
    obtain r env4 where r: "refreshAccessToken (refresh_token tokens) ?env3 = (r, env4)"
      by (cases "refreshAccessToken (refresh_token tokens) ?env3")
    have e4: "refresh_calls env4 = refresh_calls env2 + 1" "api_requests env4 = api_requests env2"
      using refreshAccessToken_effects(1,3) [of "refresh_token tokens" ?env3] r e3 by simp_all
    show ?thesis
    proof (cases r)
      case (Inl e)
      then show ?thesis using unfold Some r e4 a2 r1 r2 by simp
    next
      case (Inr newTokens)
      obtain u env5 where w: "writeTokens newTokens env4 = (u, env5)"
        by (cases "writeTokens newTokens env4")
      have e5: "refresh_calls env5 = refresh_calls env4" "api_requests env5 = api_requests env4"
        using writeTokens_effects [of newTokens env4] w by simp_all
      show ?thesis
      proof (cases u)
        case (Inl e)
        then show ?thesis using unfold Some r Inr w e4 e5 a2 r1 r2 by simp
      next
        case u: (Inr x)
        have "spotifyFetch path options env = fetch_api ?url options (access_token newTokens) env5"
          using unfold Some r Inr w u by simp
        then show ?thesis
          using fetch_api_effects [of ?url options "access_token newTokens" env5] Some r Inr e4 e5 a2 r1 r2
          by simp
      qed
    qed
  qed
qed

theorem spotifyFetch_on_401_witness:
  "fst (getAccessToken (example_world (Finite 9000) (Inl NetworkError) [Inr (answer 401), Inr (answer 200)]))
     = Some ''A1''
   \<and> fst (fetch_api (SPOTIFY_API_BASE @ ''/me/player/devices'') GET (Some ''A1'')
            (snd (getAccessToken
                    (example_world (Finite 9000) (Inl NetworkError) [Inr (answer 401), Inr (answer 200)]))))
     = Inr (answer 401)
   \<and> isl (fst (refreshAccessToken (Some ''R1'')
            (snd (readTokens
              (snd (fetch_api (SPOTIFY_API_BASE @ ''/me/player/devices'') GET (Some ''A1'')
                 (snd (getAccessToken
                    (example_world (Finite 9000) (Inl NetworkError)
                       [Inr (answer 401), Inr (answer 200)])))))))))
   \<and> fst (spotifyFetch ''/me/player/devices'' GET
            (example_world (Finite 9000) (Inl NetworkError) [Inr (answer 401), Inr (answer 200)]))
     = Inr (answer 401)
   \<and> api_requests (snd (spotifyFetch ''/me/player/devices'' GET
            (example_world (Finite 9000) (Inl NetworkError) [Inr (answer 401), Inr (answer 200)]))) = 1
   \<and> refresh_calls (snd (spotifyFetch ''/me/player/devices'' GET
            (example_world (Finite 9000) (Inl NetworkError) [Inr (answer 401), Inr (answer 200)]))) \<le> 1
   \<and> fst (readTokens
        (snd (fetch_api (SPOTIFY_API_BASE @ ''/me/player/devices'') GET (Some ''A1'')
           (snd (getAccessToken
              (example_world (Finite 9000) (Inr (issuer_answer (Some (Finite 3600))))
                 [Inr (answer 401), Inr (answer 200)]
               \<lparr>kv_unavailable := \<lambda>k. k = 1\<rparr>)))))) = None
   \<and> fst (spotifyFetch ''/me/player/devices'' GET
            (example_world (Finite 9000) (Inr (issuer_answer (Some (Finite 3600))))
               [Inr (answer 401), Inr (answer 200)]
             \<lparr>kv_unavailable := \<lambda>k. k = 1\<rparr>))
     = Inr (answer 401)"
proof -
  let ?url = "SPOTIFY_API_BASE @ ''/me/player/devices''"
  let ?W = "example_world (Finite 9000) (Inl NetworkError) [Inr (answer 401), Inr (answer 200)]"
  let ?env1 = "snd (getAccessToken ?W)"
  let ?env2 = "snd (fetch_api ?url GET (Some ''A1'') ?env1)"
  let ?V = "example_world (Finite 9000) (Inr (issuer_answer (Some (Finite 3600))))
              [Inr (answer 401), Inr (answer 200)] \<lparr>kv_unavailable := \<lambda>k. k = 1\<rparr>"
  let ?v1 = "snd (getAccessToken ?V)"
  let ?v2 = "snd (fetch_api ?url GET (Some ''A1'') ?v1)"
  have path: "(if take 4 ''/me/player/devices'' = ''http'' then ''/me/player/devices''
               else SPOTIFY_API_BASE @ ''/me/player/devices'') = ?url"
    by simp
  have h2: "truthy_string (Some ''A1'')"
    by (simp add: truthy_string_def)
  have h4: "status (answer 401) = 401"
    by (simp add: answer_def)
  have g: "fst (getAccessToken ?W) = Some ''A1''"
    by (simp add: spotify_defs example_defs Let_def)
  have h1: "getAccessToken ?W = (Some ''A1'', ?env1)"
    using g by (simp add: prod_eq_iff)
  have f: "fst (fetch_api ?url GET (Some ''A1'') ?env1) = Inr (answer 401)"
    by (simp add: spotify_defs example_defs Let_def)
  have h3: "fetch_api (if take 4 ''/me/player/devices'' = ''http'' then ''/me/player/devices''
                       else SPOTIFY_API_BASE @ ''/me/player/devices'') GET (Some ''A1'') ?env1
              = (Inr (answer 401), ?env2)"
    unfolding path using f by (simp add: prod_eq_iff)
  have stored: "fst (readTokens ?env2) = Some (stored_tokens (Finite 9000))"
    by (simp add: spotify_defs example_defs Let_def)
  have fails: "isl (fst (refreshAccessToken (Some ''R1'') (snd (readTokens ?env2))))"
    by (simp add: spotify_defs example_defs Let_def)
  have calls: "api_requests ?W = 0" "refresh_calls ?env2 = 0"
    by (simp_all add: spotify_defs example_defs Let_def)
  have g': "fst (getAccessToken ?V) = Some ''A1''"
    by (simp add: spotify_defs example_defs Let_def)
  have k1: "getAccessToken ?V = (Some ''A1'', ?v1)"
    using g' by (simp add: prod_eq_iff)
  have f': "fst (fetch_api ?url GET (Some ''A1'') ?v1) = Inr (answer 401)"
    by (simp add: spotify_defs example_defs Let_def)
  have k3: "fetch_api (if take 4 ''/me/player/devices'' = ''http'' then ''/me/player/devices''
                       else SPOTIFY_API_BASE @ ''/me/player/devices'') GET (Some ''A1'') ?v1
              = (Inr (answer 401), ?v2)"
    unfolding path using f' by (simp add: prod_eq_iff)
  have absent: "fst (readTokens ?v2) = None"
    by (simp add: spotify_defs example_defs Let_def)
  from spotifyFetch_on_401 [OF h1 h2 h3 h4] spotifyFetch_on_401 [OF k1 h2 k3 h4]
    stored fails calls g f absent
  show ?thesis
    by (simp add: stored_tokens_def)
qed

text \<open>
  The same for the refresh \<^verbatim>\<open>spotifyFetch\<close> makes after a 401: the record it leaves in
  the store carries the refresh token that its re-read found.
\<close>

lemma spotifyFetch_carries_refresh_token:
  assumes "getAccessToken env = (accessToken, env1)"
    and "truthy_string accessToken"
    and "fetch_api (if take 4 path = ''http'' then path else SPOTIFY_API_BASE @ path)
           options accessToken env1 = (Inr response, env2)"
    and "status response = 401"
    and "fst (readTokens env2) = Some tokens"
    and "token_endpoint env2 (token_posts env2) (Refresh_token (refresh_token tokens)) = Inr issued"
    and "json issued = Some data"
    and "data_refresh_token data = None"
    and "refreshAccessToken (refresh_token tokens) (snd (readTokens env2)) = (Inr newTokens, env4)"
    and "fst (writeTokens newTokens env4) = Inr ()"
  shows "\<exists>persisted.
      TOKENS_KV (snd (spotifyFetch path options env)) = Some (Text_json (JObject persisted))
    \<and> refresh_token persisted = refresh_token tokens
    \<and> access_token persisted = access_token newTokens"
proof -
  let ?url = "if take 4 path = ''http'' then path else SPOTIFY_API_BASE @ path"
  let ?env3 = "snd (readTokens env2)"
  let ?env5 = "snd (writeTokens newTokens env4)"
  have w: "writeTokens newTokens env4 = (Inr (), ?env5)"
    using assms(10) by (simp add: prod_eq_iff)
  have "spotifyFetch path options env = fetch_api ?url options (access_token newTokens) ?env5"
    using assms(1-5,9,10) w
    by (simp add: spotifyFetch_def Let_def case_prod_beta split: option.splits)
  then have kv: "TOKENS_KV (snd (spotifyFetch path options env)) = Some (JSON_stringify newTokens)"
    by (simp add: fetch_api_def writeTokens_ok_world [OF assms(10)])
  have endpoint: "token_endpoint ?env3 (token_posts ?env3) (Refresh_token (refresh_token tokens))
      = Inr issued"
    using assms(6) by (simp add: readTokens_effects)
  have "refresh_token newTokens = refresh_token tokens"
    using assms(5) readTokens_effects(3) endpoint assms(7,8,9)
    by (rule refreshAccessToken_keeps_refresh_token)
  then show ?thesis
    using kv by (simp add: JSON_stringify_def)
qed

section \<open>The retry of the transfer\<close>

lemmas loop_steps =
  retryTransfer_loop.simps [of _ 1] retryTransfer_loop.simps [of _ 2]
  retryTransfer_loop.simps [of _ 3]

lemma getRetryDelayMs_script:
  "script (snd (getRetryDelayMs attempt response env)) = script env"
  "script_calls (snd (getRetryDelayMs attempt response env)) = script_calls env"
  by (simp_all add: getRetryDelayMs_def Date_now_def Let_def split: option.splits prod.splits)

lemma sleep_script:
  "script (sleep ms env) = script env" "script_calls (sleep ms env) = script_calls env"
  by (simp_all add: sleep_def)

lemma pause_script:
  "getRetryDelayMs attempt response env = (delayMs, env2) \<Longrightarrow>
     script (sleep delayMs env2) = script env \<and> script_calls (sleep delayMs env2) = script_calls env"
  using getRetryDelayMs_script [of attempt response env] by (simp add: sleep_script)

lemma loop_3:
  "fst (retryTransfer_loop scripted 3 lastResponse env) = script env (script_calls env)"
  "script_calls (snd (retryTransfer_loop scripted 3 lastResponse env)) = Suc (script_calls env)"
  by (subst retryTransfer_loop.simps, simp add: scripted_def TRANSFER_RETRY_ATTEMPTS_def split: sum.splits)+

lemma loop_2:
  "fst (retryTransfer_loop scripted 2 lastResponse env) =
     (if goes_on (script env (script_calls env)) then script env (Suc (script_calls env))
      else script env (script_calls env))"
  "script_calls (snd (retryTransfer_loop scripted 2 lastResponse env)) =
     (if goes_on (script env (script_calls env)) then script_calls env + 2 else script_calls env + 1)"
proof -
  let ?env1 = "env\<lparr>script_calls := Suc (script_calls env)\<rparr>"
  let ?o = "script env (script_calls env)"
  have step: "retryTransfer_loop scripted 2 lastResponse env =
     (case ?o of
        Inr response \<Rightarrow>
          if ok response \<or> \<not> shouldRetryTransfer response then (Inr response, ?env1)
          else (case getRetryDelayMs 2 (Some response) ?env1 of
                  (delayMs, env2) \<Rightarrow> retryTransfer_loop scripted 3 (Some response) (sleep delayMs env2))
      | Inl e \<Rightarrow>
          (case getRetryDelayMs 2 None ?env1 of
             (delayMs, env2) \<Rightarrow> retryTransfer_loop scripted 3 lastResponse (sleep delayMs env2)))"
    by (subst retryTransfer_loop.simps)
       (simp add: scripted_def TRANSFER_RETRY_ATTEMPTS_def split: sum.splits)
  have next3: "fst (retryTransfer_loop scripted 3 l (sleep delayMs env2)) = script env (Suc (script_calls env))
     \<and> script_calls (snd (retryTransfer_loop scripted 3 l (sleep delayMs env2))) = script_calls env + 2"
    if "getRetryDelayMs 2 x ?env1 = (delayMs, env2)" for l x delayMs env2
    using pause_script [OF that] by (simp add: loop_3)
  show "fst (retryTransfer_loop scripted 2 lastResponse env) =
     (if goes_on ?o then script env (Suc (script_calls env)) else ?o)"
    unfolding step using next3 by (auto split: sum.splits prod.splits)
  show "script_calls (snd (retryTransfer_loop scripted 2 lastResponse env)) =
     (if goes_on ?o then script_calls env + 2 else script_calls env + 1)"
    unfolding step using next3 by (auto split: sum.splits prod.splits)
qed

lemma loop_1:
  "fst (retryTransfer_loop scripted 1 lastResponse env) =
     (if goes_on (script env (script_calls env)) then
        (if goes_on (script env (Suc (script_calls env))) then script env (script_calls env + 2)
         else script env (Suc (script_calls env)))
      else script env (script_calls env))"
  "script_calls (snd (retryTransfer_loop scripted 1 lastResponse env)) =
     (if goes_on (script env (script_calls env)) then
        (if goes_on (script env (Suc (script_calls env))) then script_calls env + 3
         else script_calls env + 2)
      else script_calls env + 1)"
proof -
  let ?env1 = "env\<lparr>script_calls := Suc (script_calls env)\<rparr>"
  let ?o = "script env (script_calls env)"
  have step: "retryTransfer_loop scripted 1 lastResponse env =
     (case ?o of
        Inr response \<Rightarrow>
          if ok response \<or> \<not> shouldRetryTransfer response then (Inr response, ?env1)
          else (case getRetryDelayMs 1 (Some response) ?env1 of
                  (delayMs, env2) \<Rightarrow> retryTransfer_loop scripted 2 (Some response) (sleep delayMs env2))
      | Inl e \<Rightarrow>
          (case getRetryDelayMs 1 None ?env1 of
             (delayMs, env2) \<Rightarrow> retryTransfer_loop scripted 2 lastResponse (sleep delayMs env2)))"
    by (subst retryTransfer_loop.simps)
       (simp add: scripted_def TRANSFER_RETRY_ATTEMPTS_def split: sum.splits)
  have next2: "fst (retryTransfer_loop scripted 2 l (sleep delayMs env2)) =
        (if goes_on (script env (Suc (script_calls env))) then script env (script_calls env + 2)
         else script env (Suc (script_calls env)))
     \<and> script_calls (snd (retryTransfer_loop scripted 2 l (sleep delayMs env2))) =
        (if goes_on (script env (Suc (script_calls env))) then script_calls env + 3
         else script_calls env + 2)"
    if "getRetryDelayMs 1 x ?env1 = (delayMs, env2)" for l x delayMs env2
    using pause_script [OF that] by (simp add: loop_2)
  show "fst (retryTransfer_loop scripted 1 lastResponse env) =
     (if goes_on ?o then
        (if goes_on (script env (Suc (script_calls env))) then script env (script_calls env + 2)
         else script env (Suc (script_calls env)))
      else ?o)"
    unfolding step using next2 by (auto split: sum.splits prod.splits)
  show "script_calls (snd (retryTransfer_loop scripted 1 lastResponse env)) =
     (if goes_on ?o then
        (if goes_on (script env (Suc (script_calls env))) then script_calls env + 3
         else script_calls env + 2)
      else script_calls env + 1)"
    unfolding step using next2 by (auto split: sum.splits prod.splits)
qed

text \<open>
  Claim C3. Whatever sequence of outcomes \<^verbatim>\<open>makeRequest\<close> produces, \<^verbatim>\<open>retryTransfer\<close>
  invokes it at least once and at most 3 times. The retryable statuses are exactly 404,
  429 and 500 to 504. A response with a retryable status that is not ok is followed by
  another attempt while attempts remain (after one such response there are at least two
  invocations, after two there are three); a response with any other status is returned
  at once, with no further invocation and no sleep.
\<close>

theorem retryTransfer_attempts:
  "script_calls env < script_calls (snd (retryTransfer scripted env))
   \<and> script_calls (snd (retryTransfer scripted env)) \<le> script_calls env + 3
   \<and> (\<forall>r. shouldRetryTransfer r \<longleftrightarrow> status r \<in> {404, 429, 500, 501, 502, 503, 504})
   \<and> (\<forall>r. script env (script_calls env) = Inr r \<and> \<not> ok r \<and> shouldRetryTransfer r
        \<longrightarrow> script_calls env + 2 \<le> script_calls (snd (retryTransfer scripted env)))
   \<and> (\<forall>r r'. script env (script_calls env) = Inr r \<and> \<not> ok r \<and> shouldRetryTransfer r
          \<and> script env (Suc (script_calls env)) = Inr r' \<and> \<not> ok r' \<and> shouldRetryTransfer r'
        \<longrightarrow> script_calls (snd (retryTransfer scripted env)) = script_calls env + 3)
   \<and> (\<forall>r. script env (script_calls env) = Inr r \<and> \<not> shouldRetryTransfer r
        \<longrightarrow> fst (retryTransfer scripted env) = Inr r
            \<and> script_calls (snd (retryTransfer scripted env)) = script_calls env + 1
            \<and> slept (snd (retryTransfer scripted env)) = slept env)
   \<and> (\<forall>r r'. script env (script_calls env) = Inr r \<and> \<not> ok r \<and> shouldRetryTransfer r
          \<and> script env (Suc (script_calls env)) = Inr r' \<and> \<not> shouldRetryTransfer r'
        \<longrightarrow> fst (retryTransfer scripted env) = Inr r'
            \<and> script_calls (snd (retryTransfer scripted env)) = script_calls env + 2)"
proof -
  have statuses: "\<forall>r. shouldRetryTransfer r \<longleftrightarrow> status r \<in> {404, 429, 500, 501, 502, 503, 504}"
    unfolding shouldRetryTransfer_def by (auto; presburger)
  have immediate: "slept (snd (retryTransfer scripted env)) = slept env"
    if "script env (script_calls env) = Inr r" "\<not> shouldRetryTransfer r" for r
    unfolding retryTransfer_def
    by (subst retryTransfer_loop.simps) (simp add: that scripted_def TRANSFER_RETRY_ATTEMPTS_def)
  show ?thesis
    using statuses immediate unfolding retryTransfer_def
    by (simp add: loop_1 split: sum.splits)
qed

theorem retryTransfer_attempts_witness:
  "script (example_world (Finite 9000) (Inl NetworkError)
             [Inr (answer 404), Inr (answer 404), Inr (answer 404)]) 0 = Inr (answer 404)
   \<and> script_calls (snd (retryTransfer scripted
        (example_world (Finite 9000) (Inl NetworkError)
           [Inr (answer 404), Inr (answer 404), Inr (answer 404)]))) = 3
   \<and> script (example_world (Finite 9000) (Inl NetworkError) [Inr (answer 403), Inr (answer 200)]) 0
       = Inr (answer 403)
   \<and> fst (retryTransfer scripted
        (example_world (Finite 9000) (Inl NetworkError) [Inr (answer 403), Inr (answer 200)]))
       = Inr (answer 403)
   \<and> script_calls (snd (retryTransfer scripted
        (example_world (Finite 9000) (Inl NetworkError) [Inr (answer 403), Inr (answer 200)]))) = 1"
proof -
  let ?W = "example_world (Finite 9000) (Inl NetworkError)
              [Inr (answer 404), Inr (answer 404), Inr (answer 404)]"
  let ?V = "example_world (Finite 9000) (Inl NetworkError) [Inr (answer 403), Inr (answer 200)]"
  have w: "script ?W (script_calls ?W) = Inr (answer 404)"
      "script ?W (Suc (script_calls ?W)) = Inr (answer 404)" "script_calls ?W = 0"
      "\<not> ok (answer 404)" "shouldRetryTransfer (answer 404)"
    by (simp_all add: example_defs ok_def shouldRetryTransfer_def)
  have v: "script ?V (script_calls ?V) = Inr (answer 403)" "script_calls ?V = 0"
      "\<not> shouldRetryTransfer (answer 403)"
    by (simp_all add: example_defs shouldRetryTransfer_def)
  from retryTransfer_attempts [of ?W] retryTransfer_attempts [of ?V] w v
  show ?thesis
    by simp
qed

text \<open>
  Claim C6, as stated, fails: when the last attempt throws, its error propagates also
  when earlier attempts received responses. Here the first two attempts receive 500 and
  the third throws: the budget is exhausted without an ok response, and the result is
  the thrown error, not the last received response.
\<close>

theorem retryTransfer_final_throw_counterexample:
  "script (example_world (Finite 9000) (Inl NetworkError)
             [Inr (answer 500), Inr (answer 500), Inl NetworkError]) 0 = Inr (answer 500)
   \<and> script (example_world (Finite 9000) (Inl NetworkError)
             [Inr (answer 500), Inr (answer 500), Inl NetworkError]) 1 = Inr (answer 500)
   \<and> script (example_world (Finite 9000) (Inl NetworkError)
             [Inr (answer 500), Inr (answer 500), Inl NetworkError]) 2 = Inl NetworkError
   \<and> script_calls (snd (retryTransfer scripted
        (example_world (Finite 9000) (Inl NetworkError)
           [Inr (answer 500), Inr (answer 500), Inl NetworkError]))) = 3
   \<and> fst (retryTransfer scripted
        (example_world (Finite 9000) (Inl NetworkError)
           [Inr (answer 500), Inr (answer 500), Inl NetworkError])) = Inl NetworkError
   \<and> fst (retryTransfer scripted
        (example_world (Finite 9000) (Inl NetworkError)
           [Inr (answer 500), Inr (answer 500), Inl NetworkError])) \<noteq> Inr (answer 500)"
  unfolding retryTransfer_def
  by (simp add: loop_1 example_defs ok_def shouldRetryTransfer_def)

text \<open>
  Claim C6, amended. The result of \<^verbatim>\<open>retryTransfer\<close> is the outcome of the last attempt it
  made: a response is returned as received (no response or error is made up), a thrown
  error propagates. A thrown error on the first or on the second attempt is retried. A
  run that uses all three attempts ends with the third attempt's outcome: its response
  if it received one, and otherwise its error, also when earlier attempts had received
  responses.
\<close>

theorem retryTransfer_result:
  "fst (retryTransfer scripted env) = script env (script_calls (snd (retryTransfer scripted env)) - 1)
   \<and> (\<forall>e. script env (script_calls env) = Inl e
        \<longrightarrow> script_calls env + 2 \<le> script_calls (snd (retryTransfer scripted env)))
   \<and> (\<forall>e. goes_on (script env (script_calls env)) \<and> script env (Suc (script_calls env)) = Inl e
        \<longrightarrow> script_calls (snd (retryTransfer scripted env)) = script_calls env + 3)
   \<and> (script_calls (snd (retryTransfer scripted env)) = script_calls env + 3
        \<longrightarrow> fst (retryTransfer scripted env) = script env (script_calls env + 2))"
  unfolding retryTransfer_def by (simp add: loop_1 split: sum.splits)

theorem retryTransfer_result_witness:
  "script (example_world (Finite 9000) (Inl NetworkError)
             [Inl NetworkError, Inl NetworkError, Inr (answer 503)]) 0 = Inl NetworkError
   \<and> script (example_world (Finite 9000) (Inl NetworkError)
             [Inl NetworkError, Inl NetworkError, Inr (answer 503)]) 1 = Inl NetworkError
   \<and> script_calls (snd (retryTransfer scripted
        (example_world (Finite 9000) (Inl NetworkError)
           [Inl NetworkError, Inl NetworkError, Inr (answer 503)]))) = 3
   \<and> fst (retryTransfer scripted
        (example_world (Finite 9000) (Inl NetworkError)
           [Inl NetworkError, Inl NetworkError, Inr (answer 503)])) = Inr (answer 503)"
proof -
  let ?W = "example_world (Finite 9000) (Inl NetworkError)
              [Inl NetworkError, Inl NetworkError, Inr (answer 503)]"
  have w: "script ?W (script_calls ?W) = Inl NetworkError"
      "script ?W (Suc (script_calls ?W)) = Inl NetworkError"
      "script ?W (script_calls ?W + 2) = Inr (answer 503)" "script_calls ?W = 0"
    by (simp_all add: example_defs)
  from retryTransfer_result [of ?W] w show ?thesis
    by (simp add: numeral_2_eq_2)
qed

lemma exponential_delay_finite:
  "\<exists>x. exponential_delay attempt = Finite x \<and> x \<le> 2000"
  by (auto simp: exponential_delay_def number_min_def TRANSFER_RETRY_MAX_DELAY_MS_def)

lemma number_min_le: "a \<noteq> NaN \<Longrightarrow> number_le (number_min a (Finite x)) (Finite x)"
  by (cases a) (auto simp: number_min_def number_le_def)

lemma number_times_1000: "seconds \<noteq> NaN \<Longrightarrow> number_times seconds (Finite 1000) \<noteq> NaN"
  by (cases seconds) auto

text \<open>No computed delay exceeds the maximum.\<close>

lemma getRetryDelayMs_le_max:
  "number_le (fst (getRetryDelayMs attempt response env)) TRANSFER_RETRY_MAX_DELAY_MS"
proof -
  have e: "number_le (exponential_delay attempt) TRANSFER_RETRY_MAX_DELAY_MS"
    using exponential_delay_finite [of attempt]
    by (auto simp: number_le_def TRANSFER_RETRY_MAX_DELAY_MS_def)
  have s: "number_le (number_min (number_times seconds (Finite 1000)) TRANSFER_RETRY_MAX_DELAY_MS)
             TRANSFER_RETRY_MAX_DELAY_MS" if "seconds \<noteq> NaN" for seconds
    unfolding TRANSFER_RETRY_MAX_DELAY_MS_def
    using number_times_1000 [OF that] by (rule number_min_le)
  have d: "number_le (number_min (of_integer delta) TRANSFER_RETRY_MAX_DELAY_MS)
             TRANSFER_RETRY_MAX_DELAY_MS" for delta
    unfolding TRANSFER_RETRY_MAX_DELAY_MS_def by (rule number_min_le) (simp add: of_integer_def)
  show ?thesis
    using e s d
    by (simp add: getRetryDelayMs_def Date_now_def Let_def split: option.splits)
qed

lemma getRetryDelayMs_exponential:
  assumes "response = None
     \<or> (\<exists>r. response = Some r
           \<and> (status r \<noteq> 429 \<or> headers_get r ''Retry-After'' = None
               \<or> headers_get r ''Retry-After'' = Some []))"
  shows "getRetryDelayMs attempt response env = (exponential_delay attempt, env)"
  using assms by (auto simp: getRetryDelayMs_def)

lemma getRetryDelayMs_seconds:
  assumes "status r = 429" and "headers_get r ''Retry-After'' = Some retryAfter"
    and "retryAfter \<noteq> []" and "Number retryAfter \<noteq> NaN"
  shows "getRetryDelayMs attempt (Some r) env
           = (number_min (number_times (Number retryAfter) (Finite 1000))
                TRANSFER_RETRY_MAX_DELAY_MS, env)"
  using assms by (simp add: getRetryDelayMs_def Let_def)

lemma getRetryDelayMs_date:
  assumes "status r = 429" and "headers_get r ''Retry-After'' = Some retryAfter"
    and "retryAfter \<noteq> []" and "Number retryAfter = NaN"
    and "Date_parse env retryAfter = Some retryDate"
  shows "fst (getRetryDelayMs attempt (Some r) env)
           = (if retryDate - clock env (clock_reads env) > 0
              then number_min (of_integer (retryDate - clock env (clock_reads env)))
                     TRANSFER_RETRY_MAX_DELAY_MS
              else exponential_delay attempt)"
  using assms by (simp add: getRetryDelayMs_def Date_now_def Let_def)

lemma exponential_delay_values:
  "exponential_delay 1 = Finite 350" "exponential_delay 2 = Finite 700"
  "exponential_delay 3 = Finite 1400" "exponential_delay 4 = Finite 2000"
  by (simp_all add: exponential_delay_def number_min_def TRANSFER_RETRY_BASE_DELAY_MS_def
        TRANSFER_RETRY_MAX_DELAY_MS_def power_int_def)

lemma Number_examples:
  "Number ''0'' = Finite 0" "Number ''1'' = Finite 1" "Number ''2'' = Finite 2"
  "Number ''-3'' = Finite (- 3)" "Number ''1.5'' = Finite (3 / 2)" "Number '' 1 '' = Finite 1"
  "Number ''+1'' = Finite 1" "Number ''1e0'' = Finite 1" "Number ''0x1'' = Finite 1"
  "Number ''Infinity'' = PosInfinity" "Number ''soon'' = NaN"
  "Number ''Thu, 01 Jan 1970 01:23:21 GMT'' = NaN"
  by (simp_all add: number_defs Let_def)

lemma status_rate_limited: "status (rate_limited v) = 429"
  by (simp add: rate_limited_def)

lemma headers_get_examples:
  "headers_get (rate_limited v) ''Retry-After'' = Some v"
  "headers_get \<lparr>status = 429, headers = [(''retry-after'', ''1'')], json = None\<rparr> ''Retry-After''
     = Some ''1''"
  "headers_get (answer s) ''Retry-After'' = None"
  by (simp_all add: headers_get_def rate_limited_def answer_def lower_case_def)

text \<open>
  Claim C5 holds of the code except where the header gives seconds that are not
  positive. The branch that reads a date falls through to the exponential delay when the
  delay it computes is not positive; the branch that reads seconds returns
  \<open>min (seconds * 1000) 2000\<close> whatever its sign. With status 429 and
  \<^verbatim>\<open>Retry-After: 0\<close> after attempt 1, \<^verbatim>\<open>getRetryDelayMs\<close> returns 0, where the claim gives the
  exponential delay of 350 ms, and \<^verbatim>\<open>retryTransfer\<close> sleeps 0 ms before the next attempt.
\<close>

theorem getRetryDelayMs_zero_seconds:
  "headers_get (rate_limited ''0'') ''Retry-After'' = Some ''0''
   \<and> Number ''0'' = Finite 0
   \<and> getRetryDelayMs 1 (Some (rate_limited ''0'')) (example_world (Finite 9000) (Inl NetworkError) [])
       = (Finite 0, example_world (Finite 9000) (Inl NetworkError) [])
   \<and> exponential_delay 1 = Finite 350
   \<and> slept (snd (retryTransfer scripted
        (example_world (Finite 9000) (Inl NetworkError)
           [Inr (rate_limited ''0''), Inr (answer 200)]))) = [Finite 0]"
proof -
  have h: "headers_get (rate_limited ''0'') ''Retry-After'' = Some ''0''"
    by (rule headers_get_examples)
  have s: "status (rate_limited ''0'') = 429"
    by (simp add: rate_limited_def)
  have d: "getRetryDelayMs 1 (Some (rate_limited ''0'')) env = (Finite 0, env)" for env
    by (simp add: getRetryDelayMs_def h s Number_examples number_min_def
          TRANSFER_RETRY_MAX_DELAY_MS_def)
  have run: "slept (snd (retryTransfer scripted
        (example_world (Finite 9000) (Inl NetworkError)
           [Inr (rate_limited ''0''), Inr (answer 200)]))) = [Finite 0]"
    by (simp add: retryTransfer_def loop_steps scripted_def d s sleep_def ok_def
          shouldRetryTransfer_def TRANSFER_RETRY_ATTEMPTS_def example_world_def outcomes_of_def
          answer_def)
  show ?thesis
    using h d run by (simp add: Number_examples exponential_delay_values)
qed

section \<open>Scenarios of the specification\<close>

text \<open>
  The stored credential expired ten seconds ago and the issuer answers the refresh with
  a new access token, a lifetime of 3600 seconds and no refresh token: the new record
  keeps the old refresh token and expires 3600 seconds from now.
\<close>

lemma scenario_refresh_without_refresh_token:
  "getAccessToken (example_world (Finite 4990) (Inr (issuer_answer (Some (Finite 3600)))) []) =
     (Some ''A2'',
      example_world (Finite 4990) (Inr (issuer_answer (Some (Finite 3600)))) []
        \<lparr>TOKENS_KV := Some (Text_json (JObject
            \<lparr>access_token = Some ''A2'', refresh_token = Some ''R1'',
               expires_at = Some (Finite 8600)\<rparr>)),
         kv_ops := 3, clock_reads := 2, token_posts := 1, refresh_calls := 1\<rparr>)"
  by (simp add: spotify_defs example_defs Let_def)

text \<open>
  With a fresh credential, a 401 followed by a successful refresh and a 200: the result is
  the 200 response, after one refresh and two requests.
\<close>

lemma scenario_401_then_200:
  "fst (spotifyFetch ''/me/player/devices'' GET
          (example_world (Finite 9000) (Inr (issuer_answer (Some (Finite 3600))))
             [Inr (answer 401), Inr (answer 200)]))
     = Inr (answer 200)
   \<and> refresh_calls (snd (spotifyFetch ''/me/player/devices'' GET
          (example_world (Finite 9000) (Inr (issuer_answer (Some (Finite 3600))))
             [Inr (answer 401), Inr (answer 200)])))
     = 1
   \<and> api_requests (snd (spotifyFetch ''/me/player/devices'' GET
          (example_world (Finite 9000) (Inr (issuer_answer (Some (Finite 3600))))
             [Inr (answer 401), Inr (answer 200)])))
     = 2"
  by (simp add: spotify_defs example_defs Let_def)

text \<open>
  The delay after a 429: \<^verbatim>\<open>Retry-After: 1\<close> gives 1000 ms, \<^verbatim>\<open>2\<close> gives 2000 ms, \<^verbatim>\<open>1.5\<close>
  gives 1500 ms, \<^verbatim>\<open>Infinity\<close> is clamped to 2000 ms, a negative number of seconds gives a
  negative delay; the header name is found in any case; a date one second ahead gives
  1000 ms.
\<close>

lemma getRetryDelayMs_examples:
  "fst (getRetryDelayMs 1 (Some (rate_limited ''1'')) env) = Finite 1000"
  "fst (getRetryDelayMs 1 (Some (rate_limited ''2'')) env) = Finite 2000"
  "fst (getRetryDelayMs 1 (Some (rate_limited ''1.5'')) env) = Finite 1500"
  "fst (getRetryDelayMs 1 (Some (rate_limited ''Infinity'')) env) = Finite 2000"
  "fst (getRetryDelayMs 1 (Some (rate_limited ''-3'')) env) = Finite (- 3000)"
  by (simp_all add: getRetryDelayMs_def headers_get_examples Number_examples number_min_def
        TRANSFER_RETRY_MAX_DELAY_MS_def status_rate_limited)

lemma getRetryDelayMs_lower_case_example:
  "fst (getRetryDelayMs 1
          (Some \<lparr>status = 429, headers = [(''retry-after'', ''1'')], json = None\<rparr>) env)
     = Finite 1000"
  by (simp add: getRetryDelayMs_def headers_get_examples Number_examples number_min_def
        TRANSFER_RETRY_MAX_DELAY_MS_def)

lemma getRetryDelayMs_date_example:
  "fst (getRetryDelayMs 1 (Some (rate_limited ''Thu, 01 Jan 1970 01:23:21 GMT''))
          (example_world (Finite 9000) (Inl NetworkError) [])) = Finite 1000"
  by (simp add: getRetryDelayMs_def headers_get_examples Number_examples number_min_def
        TRANSFER_RETRY_MAX_DELAY_MS_def status_rate_limited example_world_def one_Date_parse_def
        Date_now_def of_integer_def)

text \<open>A 429 with \<^verbatim>\<open>Retry-After: 1\<close> and then a 200: two attempts and one sleep of 1000 ms.\<close>

lemma scenario_retry_after_1:
  "fst (retryTransfer scripted
          (example_world (Finite 9000) (Inl NetworkError)
             [Inr (rate_limited ''1''), Inr (answer 200)]))
     = Inr (answer 200)
   \<and> slept (snd (retryTransfer scripted
          (example_world (Finite 9000) (Inl NetworkError)
             [Inr (rate_limited ''1''), Inr (answer 200)])))
     = [Finite 1000]
   \<and> script_calls (snd (retryTransfer scripted
          (example_world (Finite 9000) (Inl NetworkError)
             [Inr (rate_limited ''1''), Inr (answer 200)])))
     = 2"
proof -
  have s: "status (rate_limited ''1'') = 429"
    by (simp add: rate_limited_def)
  have d: "getRetryDelayMs 1 (Some (rate_limited ''1'')) env = (Finite 1000, env)" for env
    by (simp add: getRetryDelayMs_def headers_get_examples s Number_examples number_min_def
          TRANSFER_RETRY_MAX_DELAY_MS_def)
  show ?thesis
    by (simp add: retryTransfer_def loop_steps scripted_def d s sleep_def ok_def
          shouldRetryTransfer_def TRANSFER_RETRY_ATTEMPTS_def example_world_def outcomes_of_def
          answer_def)
qed

text \<open>Three 404 responses: three attempts, sleeps of 350 and 700 ms, the last 404 returned.\<close>

lemma scenario_404_three_times:
  "fst (retryTransfer scripted
          (example_world (Finite 9000) (Inl NetworkError)
             [Inr (answer 404), Inr (answer 404), Inr (answer 404)]))
     = Inr (answer 404)
   \<and> slept (snd (retryTransfer scripted
          (example_world (Finite 9000) (Inl NetworkError)
             [Inr (answer 404), Inr (answer 404), Inr (answer 404)])))
     = [Finite 350, Finite 700]
   \<and> script_calls (snd (retryTransfer scripted
          (example_world (Finite 9000) (Inl NetworkError)
             [Inr (answer 404), Inr (answer 404), Inr (answer 404)])))
     = 3"
  by (simp add: retryTransfer_def loop_steps scripted_def getRetryDelayMs_def sleep_def ok_def
        shouldRetryTransfer_def TRANSFER_RETRY_ATTEMPTS_def exponential_delay_values
        example_world_def outcomes_of_def answer_def)

text \<open>
  No stored credential: \<^verbatim>\<open>getAccessToken\<close> returns \<^verbatim>\<open>null\<close> after its one read of the
  store, and \<^verbatim>\<open>spotifyFetch\<close> throws before any request.
\<close>

lemma scenario_no_credential:
  "fst (readTokens env) = None \<Longrightarrow> getAccessToken env = (None, snd (readTokens env))"
  by (rule getAccessToken_absent)

lemma scenario_no_credential_fetch:
  "fst (readTokens env) = None \<Longrightarrow>
     spotifyFetch path options env = (Inl NoAccessTokenAvailable, snd (readTokens env))"
  by (simp add: spotifyFetch_def getAccessToken_absent truthy_string_def)

end
